theory Spec2Isabelle
  imports Main "HOL-Library.Char_ord" "HOL-Library.List_Lexorder"
begin

section \<open>Strings and integers of the Go runtime\<close>

text \<open>
  A Go \<^verbatim>\<open>string\<close> is a byte sequence: it is modelled as \<^typ>\<open>string\<close> (a list of 8-bit
  characters). The operators \<^verbatim>\<open>==\<close>, \<^verbatim>\<open><\<close> and \<^verbatim>\<open>>\<close> on Go strings compare
  byte-wise and lexicographically, which is the order of \<^typ>\<open>char list\<close> given by
  the lexicographic list order over the byte order of characters.
\<close>

definition is_digit :: "char \<Rightarrow> bool" where
  "is_digit c = (CHR ''0'' \<le> c \<and> c \<le> CHR ''9'')"

definition is_alpha :: "char \<Rightarrow> bool" where
  "is_alpha c = ((CHR ''a'' \<le> c \<and> c \<le> CHR ''z'') \<or> (CHR ''A'' \<le> c \<and> c \<le> CHR ''Z''))"

text \<open>The character class \<^verbatim>\<open>[a-zA-Z0-9\-\.]\<close> of \<^verbatim>\<open>semverRegex\<close>.\<close>

definition is_ident :: "char \<Rightarrow> bool" where
  "is_ident c = (is_alpha c \<or> is_digit c \<or> c = CHR ''-'' \<or> c = CHR ''.'')"

text \<open>The value of a run of decimal digits, read left to right.\<close>

fun dec_value :: "nat \<Rightarrow> string \<Rightarrow> nat" where
  "dec_value n [] = n"
| "dec_value n (c # cs) = dec_value (10 * n + (of_char c - 48)) cs"

text \<open>
  \<^verbatim>\<open>int\<close> is taken as 64 bits wide (the width on every 64-bit target of the Go
  toolchain).
\<close>

definition max_int :: int where
  "max_int = 9223372036854775807"

definition min_int :: int where
  "min_int = - 9223372036854775808"

text \<open>
  \<^verbatim>\<open>strconv.Atoi\<close>: an optional sign, then one or more decimal digits. The result is
  the pair of the returned integer and whether the returned error is \<^verbatim>\<open>nil\<close>. A
  syntax error returns 0; a value outside the range of \<^verbatim>\<open>int\<close> returns the nearest
  bound together with a range error.
\<close>

definition Atoi :: "string \<Rightarrow> int \<times> bool" where
  "Atoi s =
     (case s of
        [] \<Rightarrow> (0, False)
      | c # r \<Rightarrow>
          (let neg = (c = CHR ''-'');
               ds = (if c = CHR ''-'' \<or> c = CHR ''+'' then r else s)
           in if ds = [] \<or> \<not> list_all is_digit ds then (0, False)
              else (let un = int (dec_value 0 ds)
                    in if \<not> neg \<and> un > max_int then (max_int, False)
                       else if neg \<and> - un < min_int then (min_int, False)
                       else (if neg then - un else un, True))))"

text \<open>\<^verbatim>\<open>strings.Compare\<close>.\<close>

definition strings_Compare :: "string \<Rightarrow> string \<Rightarrow> int" where
  "strings_Compare a b = (if a = b then 0 else if a < b then - 1 else 1)"

text \<open>\<^verbatim>\<open>strings.Contains(s, sub)\<close>: \<open>sub\<close> occurs in \<open>s\<close> as a contiguous run.\<close>

fun Contains :: "string \<Rightarrow> string \<Rightarrow> bool" where
  "Contains [] sub = (sub = [])"
| "Contains (c # s) sub = (take (length sub) (c # s) = sub \<or> Contains s sub)"

section \<open>internal/semver: versions\<close>

record Version =
  Major :: int
  Minor :: int
  Patch :: int
  Prerelease :: string
  Build :: string
  Original :: string

text \<open>
  \<^verbatim>\<open>semverRegex = ^v?(\d+)\.(\d+)\.(\d+)(?:-([a-zA-Z0-9\-\.]+))?(?:\+([a-zA-Z0-9\-\.]+))?$\<close>

  The expression is matched by a left-to-right scan. Every repetition is followed by a
  character outside its class (or by the end of the text), so the scan takes each run
  as long as it goes and no backtracking can find another match.
\<close>

text \<open>\<^verbatim>\<open>v?\<close>\<close>

definition strip_v :: "string \<Rightarrow> string" where
  "strip_v s = (case s of [] \<Rightarrow> [] | c # r \<Rightarrow> if c = CHR ''v'' then r else s)"

text \<open>\<^verbatim>\<open>(\d+)\<close>: the captured digits and the rest of the text.\<close>

definition scan_digits :: "string \<Rightarrow> (string \<times> string) option" where
  "scan_digits s =
     (if takeWhile is_digit s = [] then None
      else Some (takeWhile is_digit s, dropWhile is_digit s))"

text \<open>\<^verbatim>\<open>\.\<close>\<close>

definition expect_dot :: "string \<Rightarrow> string option" where
  "expect_dot s = (case s of [] \<Rightarrow> None | c # r \<Rightarrow> if c = CHR ''.'' then Some r else None)"

text \<open>
  \<^verbatim>\<open>(?:<sep>([a-zA-Z0-9\-\.]+))?\<close>: the capture (empty when the group does not take
  part in the match) and the rest of the text.
\<close>

definition scan_opt_group :: "char \<Rightarrow> string \<Rightarrow> string \<times> string" where
  "scan_opt_group sep s =
     (case s of
        [] \<Rightarrow> ([], [])
      | c # r \<Rightarrow>
          if c = sep \<and> takeWhile is_ident r \<noteq> []
          then (takeWhile is_ident r, dropWhile is_ident r)
          else ([], s))"

text \<open>
  \<^verbatim>\<open>ParseVersion\<close>: \<open>None\<close> is the error "not a valid semver". The errors of the three
  \<^verbatim>\<open>strconv.Atoi\<close> calls are discarded by the source, only the integers are kept.
\<close>

definition ParseVersion :: "string \<Rightarrow> Version option" where
  "ParseVersion v =
     (case scan_digits (strip_v v) of
        None \<Rightarrow> None
      | Some (a, r1) \<Rightarrow>
     (case expect_dot r1 of
        None \<Rightarrow> None
      | Some r2 \<Rightarrow>
     (case scan_digits r2 of
        None \<Rightarrow> None
      | Some (b, r3) \<Rightarrow>
     (case expect_dot r3 of
        None \<Rightarrow> None
      | Some r4 \<Rightarrow>
     (case scan_digits r4 of
        None \<Rightarrow> None
      | Some (c, r5) \<Rightarrow>
     (case scan_opt_group (CHR ''-'') r5 of (pre, r6) \<Rightarrow>
     (case scan_opt_group (CHR ''+'') r6 of (bld, r7) \<Rightarrow>
        if r7 = []
        then Some \<lparr>Major = fst (Atoi a), Minor = fst (Atoi b), Patch = fst (Atoi c),
                   Prerelease = pre, Build = bld, Original = v\<rparr>
        else None)))))))"

text \<open>\<^verbatim>\<open>Version.Compare\<close>: \<open>- 1\<close>, \<open>0\<close> or \<open>1\<close>.\<close>

definition Compare :: "Version \<Rightarrow> Version \<Rightarrow> int" where
  "Compare v other =
     (if Major v \<noteq> Major other then (if Major v < Major other then - 1 else 1)
      else if Minor v \<noteq> Minor other then (if Minor v < Minor other then - 1 else 1)
      else if Patch v \<noteq> Patch other then (if Patch v < Patch other then - 1 else 1)
      else if Prerelease v = [] \<and> Prerelease other \<noteq> [] then 1
      else if Prerelease v \<noteq> [] \<and> Prerelease other = [] then - 1
      else if Prerelease v \<noteq> [] \<and> Prerelease other \<noteq> []
           then strings_Compare (Prerelease v) (Prerelease other)
      else 0)"


text \<open>
  The form of a version tag in the words of the specification: an optional leading
  \<open>v\<close>, three dot-separated runs of decimal digits, then optionally \<open>-\<close> and a
  prerelease, then optionally \<open>+\<close> and build metadata. Prerelease and build are
  non-empty runs of letters, digits, \<open>-\<close> and \<open>.\<close>; an absent part is the empty string.
\<close>

definition digits :: "string \<Rightarrow> bool" where
  "digits a = (a \<noteq> [] \<and> list_all is_digit a)"

definition ident_str :: "string \<Rightarrow> bool" where
  "ident_str p = (p \<noteq> [] \<and> list_all is_ident p)"

definition join_version ::
  "string \<Rightarrow> string \<Rightarrow> string \<Rightarrow> string \<Rightarrow> string \<Rightarrow> string \<Rightarrow> string" where
  "join_version pfx a b c p q =
     pfx @ a @ ''.'' @ b @ ''.'' @ c @ (if p = [] then [] else CHR ''-'' # p)
       @ (if q = [] then [] else CHR ''+'' # q)"

definition version_parts ::
  "string \<Rightarrow> string \<Rightarrow> string \<Rightarrow> string \<Rightarrow> string \<Rightarrow> string \<Rightarrow> bool" where
  "version_parts pfx a b c p q =
     ((pfx = [] \<or> pfx = ''v'') \<and> digits a \<and> digits b \<and> digits c
      \<and> (p = [] \<or> ident_str p) \<and> (q = [] \<or> ident_str q))"

definition version_form :: "string \<Rightarrow> bool" where
  "version_form s =
     (\<exists>pfx a b c p q. version_parts pfx a b c p q \<and> s = join_version pfx a b c p q)"

text \<open>
  The integer a run of digits is stored as: its decimal value when that fits
  \<^verbatim>\<open>int\<close>, the largest \<^verbatim>\<open>int\<close> otherwise.
\<close>

definition int_of_digits :: "string \<Rightarrow> int" where
  "int_of_digits a =
     (if int (dec_value 0 a) \<le> max_int then int (dec_value 0 a) else max_int)"

text \<open>
  The order of versions in the words of the specification: major, then minor, then
  patch; on equal numbers a version without prerelease is above one with a prerelease,
  and two prereleases are ordered as strings.
\<close>

definition version_le :: "Version \<Rightarrow> Version \<Rightarrow> bool" where
  "version_le a b =
     (Major a < Major b \<or> (Major a = Major b \<and>
       (Minor a < Minor b \<or> (Minor a = Minor b \<and>
         (Patch a < Patch b \<or> (Patch a = Patch b \<and>
           (Prerelease b = [] \<or> (Prerelease a \<noteq> [] \<and> Prerelease a \<le> Prerelease b))))))))"

section \<open>internal/semver: the update decision\<close>

text \<open>\<^verbatim>\<open>types.UpdatePolicy\<close> is a string type with four named constants.\<close>

type_synonym UpdatePolicy = string

definition AutoPatch :: UpdatePolicy where
  "AutoPatch = ''auto-patch''"

definition AutoMinor :: UpdatePolicy where
  "AutoMinor = ''auto-minor''"

definition AutoAll :: UpdatePolicy where
  "AutoAll = ''auto-all''"

definition NotifyOnly :: UpdatePolicy where
  "NotifyOnly = ''notify-only''"

text \<open>The verb \<^verbatim>\<open>%d\<close> of \<^verbatim>\<open>fmt.Sprintf\<close>.\<close>

definition digit_char :: "nat \<Rightarrow> char" where
  "digit_char d = ''0123456789'' ! d"

function show_nat :: "nat \<Rightarrow> string" where
  "show_nat n =
     (if n < 10 then [digit_char n]
      else show_nat (n div 10) @ [digit_char (n mod 10)])"
  by pat_completeness auto
termination
  by (relation "measure id") auto

definition show_int :: "int \<Rightarrow> string" where
  "show_int i = (if i < 0 then CHR ''-'' # show_nat (nat (- i)) else show_nat (nat i))"

text \<open>
  \<^verbatim>\<open>IsUpdateAllowed\<close> returns the decision and its reason text. The \<^verbatim>\<open>switch\<close> on the
  policy is the chain of equality tests in the order of its cases.
\<close>

definition IsUpdateAllowed :: "string \<Rightarrow> string \<Rightarrow> UpdatePolicy \<Rightarrow> string \<Rightarrow> bool \<times> string" where
  "IsUpdateAllowed current latest policy pin =
     (case ParseVersion current of
        None \<Rightarrow>
          if policy = AutoAll then (current \<noteq> latest, ''non-semver update (auto-all policy)'')
          else (False, ''non-semver tag, policy '' @ policy @ '' requires explicit semver'')
      | Some currentVer \<Rightarrow>
     (case ParseVersion latest of
        None \<Rightarrow> (False, ''latest tag '' @ latest @ '' is not semver'')
      | Some latestVer \<Rightarrow>
          if Compare latestVer currentVer \<le> 0
          then (False, ''latest version is not newer than current'')
          else if pin \<noteq> [] \<and> \<not> snd (Atoi pin)
          then (False, ''invalid pin value: '' @ pin)
          else if pin \<noteq> [] \<and> Major latestVer \<noteq> fst (Atoi pin)
          then (False, ''update would cross pin boundary (pinned to major ''
                         @ show_int (fst (Atoi pin)) @ '')'')
          else if policy = NotifyOnly
          then (False, ''notify-only policy - update available but not applied'')
          else if policy = AutoPatch
          then (if Major latestVer \<noteq> Major currentVer \<or> Minor latestVer \<noteq> Minor currentVer
                then (False, ''auto-patch policy only allows patch updates'')
                else (True, ''patch update allowed''))
          else if policy = AutoMinor
          then (if Major latestVer \<noteq> Major currentVer
                then (False, ''auto-minor policy only allows minor and patch updates'')
                else (True, ''minor/patch update allowed''))
          else if policy = AutoAll
          then (True, ''auto-all policy allows all updates'')
          else (False, ''unknown update policy: '' @ policy)))"

section \<open>internal/semver: tag filtering and selection\<close>

text \<open>
  \<^verbatim>\<open>FilterPrereleaseTags\<close> keeps, in order, the tags that contain none of the
  exclude patterns.
\<close>

definition FilterPrereleaseTags :: "string list \<Rightarrow> string list \<Rightarrow> string list" where
  "FilterPrereleaseTags tags excludePatterns =
     filter (\<lambda>tag. \<not> list_ex (\<lambda>pattern. Contains tag pattern) excludePatterns) tags"

text \<open>The first loop of \<^verbatim>\<open>FindLatestVersion\<close>: the tags that parse and carry no prerelease.\<close>

definition stable_versions :: "string list \<Rightarrow> Version list" where
  "stable_versions tags =
     List.map_filter
       (\<lambda>tag. case ParseVersion tag of
                 None \<Rightarrow> None
               | Some version \<Rightarrow> if Prerelease version = [] then Some version else None)
       tags"

text \<open>The two maximum loops, each started from the first element.\<close>

definition latest_tag :: "string \<Rightarrow> string list \<Rightarrow> string" where
  "latest_tag first rest = foldl (\<lambda>latest tag. if tag > latest then tag else latest) first rest"

definition latest_version :: "Version \<Rightarrow> Version list \<Rightarrow> Version" where
  "latest_version first rest =
     foldl (\<lambda>latest version. if Compare version latest > 0 then version else latest) first rest"

text \<open>\<^verbatim>\<open>FindLatestVersion\<close>: \<open>Inl\<close> carries the text of the returned error.\<close>

definition FindLatestVersion :: "string list \<Rightarrow> string + string" where
  "FindLatestVersion tags =
     (case stable_versions tags of
        [] \<Rightarrow>
          (case tags of
             [] \<Rightarrow> Inl ''no tags found''
           | t # ts \<Rightarrow> Inr (latest_tag t ts))
      | v # vs \<Rightarrow> Inr (Original (latest_version v vs)))"

text \<open>Tag selection: the exclusion filter, then the choice of the latest tag.\<close>

definition select_tag :: "string list \<Rightarrow> string list \<Rightarrow> string + string" where
  "select_tag rawTags excludePatterns =
     FindLatestVersion (FilterPrereleaseTags rawTags excludePatterns)"

text \<open>A tag that counts as a version for the selection.\<close>

definition stable_tag :: "string \<Rightarrow> bool" where
  "stable_tag t = (case ParseVersion t of None \<Rightarrow> False | Some v \<Rightarrow> Prerelease v = [])"

section \<open>pkg/types: configuration and status\<close>

text \<open>
  Several structs share field names (\<^verbatim>\<open>Name\<close>, \<^verbatim>\<open>UUID\<close>, \<^verbatim>\<open>Policy\<close>), so every field
  carries the name of its struct in front.
\<close>

record CoolifyConfig =
  coolify_URL :: string
  coolify_Token :: string

record DefaultsConfig =
  defaults_Policy :: UpdatePolicy
  defaults_Interval :: string
  defaults_Schedule :: string
  defaults_Cooldown :: string
  defaults_ExcludePatterns :: "string list"

record AppConfig =
  app_Name :: string
  app_UUID :: string
  app_Image :: string
  app_Policy :: UpdatePolicy
  app_Pin :: string

record Config =
  Coolify :: CoolifyConfig
  Defaults :: DefaultsConfig
  Apps :: "AppConfig list"

text \<open>
  Instants and durations are integers (seconds). \<^verbatim>\<open>LastUpdate\<close> is a pointer:
  \<open>None\<close> is \<^verbatim>\<open>nil\<close>. \<^verbatim>\<open>NextCheck\<close> is never assigned by the watcher and stays the
  zero time, \<open>None\<close>.
\<close>

record AppStatus =
  status_Name :: string
  status_UUID :: string
  status_Image :: string
  status_CurrentTag :: string
  status_LatestTag :: string
  status_Policy :: string
  status_UpdateNeeded :: bool
  status_LastCheck :: int
  status_LastUpdate :: "int option"
  status_NextCheck :: "int option"

record CoolifyApplication =
  capp_UUID :: string
  capp_Name :: string
  capp_DockerImage :: string
  capp_Status :: string

section \<open>internal/coolify: image references\<close>

text \<open>
  \<^verbatim>\<open>ExtractImageAndTag\<close> splits at the last colon, unless there is none or a slash
  follows it.
\<close>

definition ExtractImageAndTag :: "string \<Rightarrow> string \<times> string" where
  "ExtractImageAndTag dockerImage =
     (if CHR '':'' \<notin> set dockerImage then (dockerImage, ''latest'')
      else (let afterColon = rev (takeWhile (\<lambda>c. c \<noteq> CHR '':'') (rev dockerImage));
                beforeColon = rev (tl (dropWhile (\<lambda>c. c \<noteq> CHR '':'') (rev dockerImage)))
            in if Contains afterColon ''/'' then (dockerImage, ''latest'')
               else (beforeColon, afterColon)))"

definition BuildImageReference :: "string \<Rightarrow> string \<Rightarrow> string" where
  "BuildImageReference img tag = img @ '':'' @ tag"

section \<open>internal/config\<close>

definition GetUpdatePolicy :: "AppConfig \<Rightarrow> DefaultsConfig \<Rightarrow> UpdatePolicy" where
  "GetUpdatePolicy app defaults =
     (if app_Policy app \<noteq> [] then app_Policy app else defaults_Policy defaults)"

text \<open>\<^verbatim>\<open>strings.Split\<close> with a separator of one byte.\<close>

fun split_from :: "char \<Rightarrow> string \<Rightarrow> string \<Rightarrow> string list" where
  "split_from sep piece [] = [rev piece]"
| "split_from sep piece (c # cs) =
     (if c = sep then rev piece # split_from sep [] cs
      else split_from sep (c # piece) cs)"

definition Split :: "string \<Rightarrow> char \<Rightarrow> string list" where
  "Split s sep = split_from sep [] s"

text \<open>
  \<^verbatim>\<open>strings.TrimSpace\<close> on text whose white space is ASCII: tab, line feed, vertical
  tab, form feed, carriage return and space.
\<close>

definition is_space :: "char \<Rightarrow> bool" where
  "is_space c = (of_char c \<in> {9, 10, 11, 12, 13, 32 :: nat})"

definition TrimSpace :: "string \<Rightarrow> string" where
  "TrimSpace s = rev (dropWhile is_space (rev (dropWhile is_space s)))"

text \<open>
  \<^verbatim>\<open>parseCompactApps\<close>: one iteration of the loop over the semicolon-separated
  specs. \<open>None\<close> is \<^verbatim>\<open>continue\<close> on an empty spec.
\<close>

definition parseCompactApp :: "string \<Rightarrow> string + AppConfig option" where
  "parseCompactApp spec0 =
     (let spec = TrimSpace spec0 in
      if spec = [] then Inr None
      else
        (let parts = Split spec (CHR '':'') in
         if length parts < 3
         then Inl (''app spec '' @ [CHR 0x27] @ spec @ [CHR 0x27] @ '' must have at least name:uuid:image'')
         else
           (let app = \<lparr>app_Name = TrimSpace (parts ! 0), app_UUID = TrimSpace (parts ! 1),
                        app_Image = TrimSpace (parts ! 2), app_Policy = [], app_Pin = []\<rparr> in
            if app_Name app = []
            then Inl (''app name cannot be empty in spec '' @ [CHR 0x27] @ spec @ [CHR 0x27])
            else if app_UUID app = []
            then Inl (''app uuid cannot be empty in spec '' @ [CHR 0x27] @ spec @ [CHR 0x27])
            else if app_Image app = []
            then Inl (''app image cannot be empty in spec '' @ [CHR 0x27] @ spec @ [CHR 0x27])
            else if length parts > 3 \<and> parts ! 3 \<noteq> []
                    \<and> TrimSpace (parts ! 3) \<notin> {''auto-patch'', ''auto-minor'', ''auto-all'', ''notify-only''}
            then Inl (''invalid policy '' @ [CHR 0x27] @ TrimSpace (parts ! 3) @ [CHR 0x27]
                        @ '' in spec '' @ [CHR 0x27] @ spec @ [CHR 0x27]
                        @ ''. Must be: auto-patch, auto-minor, auto-all, or notify-only'')
            else
              (let app1 = (if length parts > 3 \<and> parts ! 3 \<noteq> []
                           then app\<lparr>app_Policy := TrimSpace (parts ! 3)\<rparr> else app) in
               if length parts > 4 \<and> parts ! 4 \<noteq> [] \<and> \<not> snd (Atoi (TrimSpace (parts ! 4)))
               then Inl (''invalid pin '' @ [CHR 0x27] @ TrimSpace (parts ! 4) @ [CHR 0x27]
                           @ '' in spec '' @ [CHR 0x27] @ spec @ [CHR 0x27]
                           @ ''. Must be a number (e.g., 17)'')
               else Inr (Some (if length parts > 4 \<and> parts ! 4 \<noteq> []
                               then app1\<lparr>app_Pin := TrimSpace (parts ! 4)\<rparr> else app1))))))"

fun parseCompactSpecs :: "string list \<Rightarrow> AppConfig list \<Rightarrow> string + AppConfig list" where
  "parseCompactSpecs [] apps = Inr apps"
| "parseCompactSpecs (spec # specs) apps =
     (case parseCompactApp spec of
        Inl e \<Rightarrow> Inl e
      | Inr None \<Rightarrow> parseCompactSpecs specs apps
      | Inr (Some app) \<Rightarrow> parseCompactSpecs specs (apps @ [app]))"

definition parseCompactApps :: "string \<Rightarrow> string + AppConfig list" where
  "parseCompactApps appsStr = parseCompactSpecs (Split appsStr (CHR '';'')) []"

text \<open>
  The process environment: \<^verbatim>\<open>os.Getenv\<close> gives the empty string for an unset
  variable.
\<close>

type_synonym environ = "string \<Rightarrow> string"

text \<open>
  One statement \<^verbatim>\<open>if v := os.Getenv(name); v != "" { assign }\<close> of \<^verbatim>\<open>loadFromEnv\<close>.
\<close>

definition if_set :: "string \<Rightarrow> (string \<Rightarrow> Config \<Rightarrow> Config) \<Rightarrow> Config \<Rightarrow> Config" where
  "if_set v assign config = (if v \<noteq> [] then assign v config else config)"

definition loadFromEnv :: "environ \<Rightarrow> Config \<Rightarrow> string + Config" where
  "loadFromEnv getenv config =
     (let c1 = if_set (getenv ''COOLIFY_URL'')
                 (\<lambda>url c. c\<lparr>Coolify := (Coolify c)\<lparr>coolify_URL := url\<rparr>\<rparr>) config;
          c2 = if_set (getenv ''COOLIFY_TOKEN'')
                 (\<lambda>token c. c\<lparr>Coolify := (Coolify c)\<lparr>coolify_Token := token\<rparr>\<rparr>) c1;
          c3 = if_set (getenv ''PATROL_SCHEDULE'')
                 (\<lambda>schedule c. c\<lparr>Defaults := (Defaults c)\<lparr>defaults_Schedule := schedule\<rparr>\<rparr>) c2;
          c4 = if_set (getenv ''PATROL_INTERVAL'')
                 (\<lambda>interval c. c\<lparr>Defaults := (Defaults c)\<lparr>defaults_Interval := interval\<rparr>\<rparr>) c3;
          c5 = if_set (getenv ''PATROL_POLICY'')
                 (\<lambda>policy c. c\<lparr>Defaults := (Defaults c)\<lparr>defaults_Policy := policy\<rparr>\<rparr>) c4;
          c6 = if_set (getenv ''PATROL_COOLDOWN'')
                 (\<lambda>cooldown c. c\<lparr>Defaults := (Defaults c)\<lparr>defaults_Cooldown := cooldown\<rparr>\<rparr>) c5;
          c7 = if_set (getenv ''PATROL_EXCLUDE_PATTERNS'')
                 (\<lambda>patterns c. c\<lparr>Defaults := (Defaults c)\<lparr>defaults_ExcludePatterns :=
                                   map TrimSpace (Split patterns (CHR '',''))\<rparr>\<rparr>) c6
      in if getenv ''PATROL_APPS'' \<noteq> []
         then (case parseCompactApps (getenv ''PATROL_APPS'') of
                 Inl e \<Rightarrow> Inl (''invalid PATROL_APPS format: '' @ e)
               | Inr apps \<Rightarrow> Inr (c7\<lparr>Apps := apps\<rparr>))
         else if getenv ''PATROL_AUTO_DISCOVER'' = ''true''
         then Inr (c7\<lparr>Apps := []\<rparr>)
         else Inr c7)"

text \<open>The zero value of \<^verbatim>\<open>types.Config\<close>.\<close>

definition zero_Config :: Config where
  "zero_Config =
     \<lparr>Coolify = \<lparr>coolify_URL = [], coolify_Token = []\<rparr>,
      Defaults = \<lparr>defaults_Policy = [], defaults_Interval = [], defaults_Schedule = [],
                  defaults_Cooldown = [], defaults_ExcludePatterns = []\<rparr>,
      Apps = []\<rparr>"

text \<open>The block "Set defaults" of \<^verbatim>\<open>Load\<close>.\<close>

definition set_defaults :: "DefaultsConfig \<Rightarrow> DefaultsConfig" where
  "set_defaults d0 =
     (let d1 = (if defaults_Policy d0 = [] then d0\<lparr>defaults_Policy := AutoPatch\<rparr> else d0);
          d2 = (if defaults_Interval d1 = [] then d1\<lparr>defaults_Interval := ''15m''\<rparr> else d1);
          d3 = (if defaults_Cooldown d2 = [] then d2\<lparr>defaults_Cooldown := ''1h''\<rparr> else d2)
      in if length (defaults_ExcludePatterns d3) = 0
         then d3\<lparr>defaults_ExcludePatterns :=
                [''-alpha'', ''-beta'', ''-rc'', ''-dev'', ''-nightly'']\<rparr>
         else d3)"

text \<open>
  \<^verbatim>\<open>Load\<close>. Three library calls are parameters: \<open>cronParse\<close> and \<open>durationOk\<close> say
  whether the cron parser and \<^verbatim>\<open>time.ParseDuration\<close> accept a string, and \<open>file\<close> is
  what reading the YAML file gave: \<open>None\<close> when no path was given or the file could not
  be read, \<open>Some (Inl e)\<close> when \<^verbatim>\<open>yaml.Unmarshal\<close> failed, \<open>Some (Inr c)\<close> the
  configuration it filled in. The error texts end where the source appends the
  library's own error.
\<close>

definition Load ::
  "(string \<Rightarrow> bool) \<Rightarrow> (string \<Rightarrow> bool) \<Rightarrow> (string + Config) option \<Rightarrow> environ \<Rightarrow> string + Config" where
  "Load cronParse durationOk file getenv =
     (case (case file of None \<Rightarrow> Inr zero_Config | Some r \<Rightarrow> r) of
        Inl e \<Rightarrow> Inl (''failed to parse config YAML: '' @ e)
      | Inr config0 \<Rightarrow>
     (case loadFromEnv getenv config0 of
        Inl e \<Rightarrow> Inl (''failed to load from environment: '' @ e)
      | Inr config1 \<Rightarrow>
          (let d4 = set_defaults (Defaults config1);
               config = config1\<lparr>Defaults := d4\<rparr>
           in if coolify_URL (Coolify config) = [] then Inl ''COOLIFY_URL is required''
              else if coolify_Token (Coolify config) = [] then Inl ''COOLIFY_TOKEN is required''
              else if defaults_Schedule d4 \<noteq> [] \<and> \<not> cronParse (defaults_Schedule d4)
              then Inl (''invalid PATROL_SCHEDULE cron syntax '' @ [CHR 0x27]
                          @ defaults_Schedule d4 @ [CHR 0x27])
              else if defaults_Schedule d4 = [] \<and> \<not> durationOk (defaults_Interval d4)
              then Inl ''invalid PATROL_INTERVAL''
              else if \<not> durationOk (defaults_Cooldown d4)
              then Inl ''invalid PATROL_COOLDOWN''
              else Inr config)))"

text \<open>The policy values of the enumeration.\<close>

definition valid_policy :: "UpdatePolicy \<Rightarrow> bool" where
  "valid_policy p = (p = AutoPatch \<or> p = AutoMinor \<or> p = AutoAll \<or> p = NotifyOnly)"


section \<open>internal/registry: the latest tag of an image\<close>

text \<open>\<^verbatim>\<open>filterTags\<close>, the registry client's own exclusion filter.\<close>

definition filterTags :: "string list \<Rightarrow> string list \<Rightarrow> string list" where
  "filterTags tags excludePatterns =
     filter (\<lambda>tag. \<not> list_ex (\<lambda>pattern. Contains tag pattern) excludePatterns) tags"

text \<open>
  One component of \<^verbatim>\<open>parseSimpleVersion\<close>: the first run of digits of the part
  (\<^verbatim>\<open>strings.FieldsFunc\<close> cuts at every non-digit), read by \<^verbatim>\<open>strconv.Atoi\<close>; \<open>None\<close>
  when the part has no digit or the number does not fit \<^verbatim>\<open>int\<close>.
\<close>

definition numPart :: "string \<Rightarrow> int option" where
  "numPart part =
     (let field = takeWhile is_digit (dropWhile (\<lambda>c. \<not> is_digit c) part)
      in if field = [] then None
         else if snd (Atoi field) then Some (fst (Atoi field)) else None)"

text \<open>\<^verbatim>\<open>parseSimpleVersion\<close>: \<open>None\<close> is the error "not a semver".\<close>

definition parseSimpleVersion :: "string \<Rightarrow> (int \<times> int \<times> int) option" where
  "parseSimpleVersion v =
     (let parts = Split (strip_v v) (CHR ''.'')
      in if length parts < 3 then None
         else (case numPart (parts ! 0) of
                 None \<Rightarrow> None
               | Some x \<Rightarrow>
              (case numPart (parts ! 1) of
                 None \<Rightarrow> None
               | Some y \<Rightarrow>
              (case numPart (parts ! 2) of
                 None \<Rightarrow> None
               | Some z \<Rightarrow> Some (x, y, z)))))"

text \<open>
  \<^verbatim>\<open>compareVersions\<close>. The components lie between 0 and the largest \<^verbatim>\<open>int\<close>,
  so their differences do not overflow.
\<close>

definition compareVersions :: "string \<Rightarrow> string \<Rightarrow> int" where
  "compareVersions a b =
     (case (parseSimpleVersion a, parseSimpleVersion b) of
        (Some (a0, a1, a2), Some (b0, b1, b2)) \<Rightarrow>
          if a0 \<noteq> b0 then a0 - b0
          else if a1 \<noteq> b1 then a1 - b1
          else if a2 \<noteq> b2 then a2 - b2
          else 0
      | _ \<Rightarrow> if a > b then 1 else if a < b then - 1 else 0)"

text \<open>
  \<^verbatim>\<open>Client.GetLatestTag\<close> after the tag listing has been fetched. \<^verbatim>\<open>sort.Slice\<close> is a
  parameter; it keeps the length of the slice, so the empty case of the result does
  not arise.
\<close>

definition latest_of_tags ::
  "((string \<Rightarrow> string \<Rightarrow> bool) \<Rightarrow> string list \<Rightarrow> string list) \<Rightarrow>
     string \<Rightarrow> string list \<Rightarrow> string list \<Rightarrow> string + string" where
  "latest_of_tags sortSlice img tagNames excludePatterns =
     (if length tagNames = 0 then Inl (''no tags found for image '' @ img)
      else (let filtered = filterTags tagNames excludePatterns
            in if length filtered = 0 then Inl ''no stable tags found after filtering''
               else (case sortSlice (\<lambda>x y. compareVersions x y > 0) filtered of
                       [] \<Rightarrow> Inl []
                     | t # ts \<Rightarrow> Inr t)))"

text \<open>
  The insertion sort that \<^verbatim>\<open>sort.Slice\<close> runs on a slice of at most 12 elements
  (Go 1.19 and later): each element in turn is swapped leftwards while it is less than
  its left neighbour. \<open>sink\<close> works on the sorted part in reverse, nearest neighbour
  first.
\<close>

fun sink :: "('a \<Rightarrow> 'a \<Rightarrow> bool) \<Rightarrow> 'a \<Rightarrow> 'a list \<Rightarrow> 'a list" where
  "sink lt x [] = [x]"
| "sink lt x (y # ys) = (if lt x y then y # sink lt x ys else x # y # ys)"

definition insertionSort :: "('a \<Rightarrow> 'a \<Rightarrow> bool) \<Rightarrow> 'a list \<Rightarrow> 'a list" where
  "insertionSort lt xs = rev (foldl (\<lambda>acc x. sink lt x acc) [] xs)"

section \<open>internal/watcher\<close>

text \<open>
  What a check cycle does to the outside, in the order it happens: the calls to the
  deployment controller and to the registry client, the pauses, and the error-level
  log record of a failed application check.
\<close>

datatype event =
    CallListApplications
  | CallGetApplication string
  | CallGetLatestTag string
  | CallUpdateApplication string string
  | CallRestartApplication string
  | Sleep int
  | LogCheckFailed string string

text \<open>
  The collaborators of the watcher. Each answer may depend on everything that happened
  before the call. \<open>Inl\<close> and \<open>Some\<close> carry the text of a returned error.
  \<^verbatim>\<open>GetLatestTag\<close> is the registry client's method (tag listing over HTTP, exclusion
  filter and sort); \<^verbatim>\<open>ParseDuration\<close> is \<^verbatim>\<open>time.ParseDuration\<close>, \<open>None\<close> its error.
\<close>

record World =
  ListApplications :: "event list \<Rightarrow> string + CoolifyApplication list"
  GetApplication :: "event list \<Rightarrow> string \<Rightarrow> string + CoolifyApplication"
  GetLatestTag :: "event list \<Rightarrow> string \<Rightarrow> string list \<Rightarrow> string + string"
  UpdateApplication :: "event list \<Rightarrow> string \<Rightarrow> string \<Rightarrow> string option"
  RestartApplication :: "event list \<Rightarrow> string \<Rightarrow> string option"
  ParseDuration :: "string \<Rightarrow> int option"

text \<open>
  The mutable fields of \<^verbatim>\<open>Watcher\<close>, together with the wall clock \<open>now\<close> and the
  events so far. The clock moves only in \<^verbatim>\<open>time.Sleep\<close>. The configuration and the
  dry-run flag never change and are passed alongside.
\<close>

record Watcher =
  appStatuses :: "string \<rightharpoonup> AppStatus"
  lastUpdates :: "string \<rightharpoonup> int"
  lastCheck :: int
  now :: int
  history :: "event list"

definition emit :: "event \<Rightarrow> Watcher \<Rightarrow> Watcher" where
  "emit e w = w\<lparr>history := history w @ [e]\<rparr>"

definition time_Sleep :: "int \<Rightarrow> Watcher \<Rightarrow> Watcher" where
  "time_Sleep d w = w\<lparr>now := now w + d, history := history w @ [Sleep d]\<rparr>"

definition NewWatcher :: "int \<Rightarrow> Watcher" where
  "NewWatcher t = \<lparr>appStatuses = Map.empty, lastUpdates = Map.empty, lastCheck = 0,
                    now = t, history = []\<rparr>"

text \<open>\<^verbatim>\<open>performUpdate\<close>: the returned error, if any, and the state after.\<close>

definition performUpdate :: "World \<Rightarrow> AppConfig \<Rightarrow> string \<Rightarrow> Watcher \<Rightarrow> string option \<times> Watcher" where
  "performUpdate W app newTag w =
     (let newImage = BuildImageReference (app_Image app) newTag;
          w1 = emit (CallUpdateApplication (app_UUID app) newImage) w
      in case UpdateApplication W (history w) (app_UUID app) newImage of
           Some e \<Rightarrow> (Some (''updating application config: '' @ e), w1)
         | None \<Rightarrow>
             (let w2 = emit (CallRestartApplication (app_UUID app)) w1
              in case RestartApplication W (history w1) (app_UUID app) of
                   Some e \<Rightarrow> (Some (''restarting application: '' @ e), w2)
                 | None \<Rightarrow> (None, w2)))"

text \<open>
  The cooldown test of \<^verbatim>\<open>checkAndUpdateApp\<close>. The error of \<^verbatim>\<open>time.ParseDuration\<close> is
  discarded there, which leaves the duration 0.
\<close>

definition in_cooldown :: "World \<Rightarrow> Config \<Rightarrow> AppConfig \<Rightarrow> Watcher \<Rightarrow> bool" where
  "in_cooldown W cfg app w =
     (case lastUpdates w (app_UUID app) of
        None \<Rightarrow> False
      | Some lastUpdate \<Rightarrow>
          (let cooldownDuration =
                 (case ParseDuration W (defaults_Cooldown (Defaults cfg)) of
                    None \<Rightarrow> 0 | Some d \<Rightarrow> d)
           in now w - lastUpdate < cooldownDuration))"

text \<open>The status record built by \<^verbatim>\<open>checkAndUpdateApp\<close> before the decision.\<close>

definition new_status :: "Config \<Rightarrow> AppConfig \<Rightarrow> string \<Rightarrow> string \<Rightarrow> int \<Rightarrow> AppStatus" where
  "new_status cfg app currentTag latestTag t =
     \<lparr>status_Name = app_Name app, status_UUID = app_UUID app, status_Image = app_Image app,
      status_CurrentTag = currentTag, status_LatestTag = latestTag,
      status_Policy = GetUpdatePolicy app (Defaults cfg),
      status_UpdateNeeded = False, status_LastCheck = t,
      status_LastUpdate = None, status_NextCheck = None\<rparr>"

text \<open>\<^verbatim>\<open>checkAndUpdateApp\<close>: the returned error, if any, and the state after.\<close>

definition checkAndUpdateApp ::
  "World \<Rightarrow> Config \<Rightarrow> bool \<Rightarrow> AppConfig \<Rightarrow> Watcher \<Rightarrow> string option \<times> Watcher" where
  "checkAndUpdateApp W cfg dryRun app w =
     (let w1 = emit (CallGetApplication (app_UUID app)) w
      in case GetApplication W (history w) (app_UUID app) of
           Inl e \<Rightarrow> (Some (''getting current application state: '' @ e), w1)
         | Inr currentApp \<Rightarrow>
             (let currentTag = snd (ExtractImageAndTag (capp_DockerImage currentApp))
              in if in_cooldown W cfg app w1 then (None, w1)
                 else
                   (let w2 = emit (CallGetLatestTag (app_Image app)) w1
                    in case GetLatestTag W (history w1) (app_Image app)
                              (defaults_ExcludePatterns (Defaults cfg)) of
                         Inl e \<Rightarrow>
                           (Some (''getting latest tag for '' @ app_Image app @ '': '' @ e), w2)
                       | Inr latestTag \<Rightarrow>
                           (let policy = GetUpdatePolicy app (Defaults cfg);
                                updateAllowed =
                                  fst (IsUpdateAllowed currentTag latestTag policy (app_Pin app));
                                status = (new_status cfg app currentTag latestTag (now w2))
                                           \<lparr>status_UpdateNeeded := updateAllowed\<rparr>
                            in if \<not> updateAllowed
                               then (None, w2\<lparr>appStatuses := (appStatuses w2)(app_UUID app \<mapsto> status)\<rparr>)
                               else if dryRun
                               then (None, w2\<lparr>appStatuses := (appStatuses w2)(app_UUID app \<mapsto> status)\<rparr>)
                               else
                                 (case performUpdate W app latestTag w2 of
                                    (Some e, w3) \<Rightarrow> (Some (''performing update: '' @ e), w3)
                                  | (None, w3) \<Rightarrow>
                                      (None,
                                       w3\<lparr>lastUpdates := (lastUpdates w3)(app_UUID app \<mapsto> now w3),
                                           appStatuses := (appStatuses w3)(app_UUID app \<mapsto>
                                             status\<lparr>status_LastUpdate := Some (now w3)\<rparr>)\<rparr>))))))"

text \<open>\<^verbatim>\<open>getApplicationsToCheck\<close>: the configured list, or auto-discovery.\<close>

definition getApplicationsToCheck :: "World \<Rightarrow> Config \<Rightarrow> Watcher \<Rightarrow> (string + AppConfig list) \<times> Watcher" where
  "getApplicationsToCheck W cfg w =
     (if length (Apps cfg) > 0 then (Inr (Apps cfg), w)
      else
        (let w1 = emit CallListApplications w
         in case ListApplications W (history w) of
              Inl e \<Rightarrow> (Inl (''listing Coolify applications: '' @ e), w1)
            | Inr coolifyApps \<Rightarrow>
                (Inr (map (\<lambda>coolifyApp.
                             \<lparr>app_Name = capp_Name coolifyApp, app_UUID = capp_UUID coolifyApp,
                              app_Image = fst (ExtractImageAndTag (capp_DockerImage coolifyApp)),
                              app_Policy = [], app_Pin = []\<rparr>)
                        (filter (\<lambda>coolifyApp.
                                   snd (ExtractImageAndTag (capp_DockerImage coolifyApp)) \<noteq> ''latest'')
                           coolifyApps)),
                 w1)))"

text \<open>
  The loop of \<^verbatim>\<open>checkApplications\<close> over the applications that remain. The test
  \<^verbatim>\<open>i < len(apps)-1\<close> holds exactly when an application remains after the current
  one; \<^verbatim>\<open>updateDelay\<close> is 30 seconds.
\<close>

definition updateDelay :: int where
  "updateDelay = 30"

fun check_loop :: "World \<Rightarrow> Config \<Rightarrow> bool \<Rightarrow> AppConfig list \<Rightarrow> Watcher \<Rightarrow> Watcher" where
  "check_loop W cfg dryRun [] w = w"
| "check_loop W cfg dryRun (app # rest) w =
     (case checkAndUpdateApp W cfg dryRun app w of
        (Some e, w') \<Rightarrow>
          check_loop W cfg dryRun rest (emit (LogCheckFailed (app_UUID app) e) w')
      | (None, w') \<Rightarrow>
          check_loop W cfg dryRun rest (if rest \<noteq> [] then time_Sleep updateDelay w' else w'))"

text \<open>\<^verbatim>\<open>checkApplications\<close>: one complete check cycle.\<close>

definition checkApplications :: "World \<Rightarrow> Config \<Rightarrow> bool \<Rightarrow> Watcher \<Rightarrow> string option \<times> Watcher" where
  "checkApplications W cfg dryRun w =
     (case getApplicationsToCheck W cfg (w\<lparr>lastCheck := now w\<rparr>) of
        (Inl e, w1) \<Rightarrow> (Some (''getting applications: '' @ e), w1)
      | (Inr apps, w1) \<Rightarrow> (None, check_loop W cfg dryRun apps w1))"

text \<open>The pauses among a list of events.\<close>

definition sleeps :: "event list \<Rightarrow> int list" where
  "sleeps es = List.map_filter (\<lambda>e. case e of Sleep d \<Rightarrow> Some d | _ \<Rightarrow> None) es"

text \<open>The applications whose state was fetched, among a list of events.\<close>

definition fetched :: "event list \<Rightarrow> string list" where
  "fetched es = List.map_filter (\<lambda>e. case e of CallGetApplication u \<Rightarrow> Some u | _ \<Rightarrow> None) es"


text \<open>The update and restart calls among a list of events.\<close>

definition updates :: "event list \<Rightarrow> event list" where
  "updates es =
     filter (\<lambda>e. case e of CallUpdateApplication u i \<Rightarrow> True
                  | CallRestartApplication u \<Rightarrow> True | _ \<Rightarrow> False) es"

subsection \<open>Two concrete deployments\<close>

text \<open>
  A configuration with two applications and the defaults of \<^verbatim>\<open>Load\<close>, and two
  worlds for it. In the first every application runs tag \<open>1.0.0\<close> and the registry's
  latest tag is \<open>1.0.0\<close>. In the second the deployment controller does not know the
  application \<open>u2\<close>.
\<close>

definition two_apps :: Config where
  "two_apps =
     \<lparr>Coolify = \<lparr>coolify_URL = ''http://localhost:8000'', coolify_Token = ''token''\<rparr>,
      Defaults = \<lparr>defaults_Policy = AutoPatch, defaults_Interval = ''15m'',
                  defaults_Schedule = [], defaults_Cooldown = ''1h'',
                  defaults_ExcludePatterns = [''-alpha'', ''-beta'', ''-rc'', ''-dev'', ''-nightly'']\<rparr>,
      Apps = [\<lparr>app_Name = ''web'', app_UUID = ''u1'', app_Image = ''nginx'',
               app_Policy = [], app_Pin = []\<rparr>,
              \<lparr>app_Name = ''cache'', app_UUID = ''u2'', app_Image = ''redis'',
               app_Policy = [], app_Pin = []\<rparr>]\<rparr>"

definition steady_world :: World where
  "steady_world =
     \<lparr>ListApplications = (\<lambda>h. Inr []),
      GetApplication = (\<lambda>h u. Inr \<lparr>capp_UUID = u, capp_Name = u,
                                     capp_DockerImage = ''image:1.0.0'', capp_Status = ''running''\<rparr>),
      GetLatestTag = (\<lambda>h i pats. Inr ''1.0.0''),
      UpdateApplication = (\<lambda>h u i. None),
      RestartApplication = (\<lambda>h u. None),
      ParseDuration = (\<lambda>s. if s = ''1h'' then Some 3600 else None)\<rparr>"

definition missing_world :: World where
  "missing_world =
     steady_world\<lparr>GetApplication :=
       (\<lambda>h u. if u = ''u2'' then Inl (''application not found: '' @ u)
               else GetApplication steady_world h u)\<rparr>"

section \<open>Properties of the version parser\<close>

lemmas parse_defs =
  ParseVersion_def scan_digits_def strip_v_def expect_dot_def scan_opt_group_def
  is_digit_def is_alpha_def is_ident_def Atoi_def max_int_def min_int_def

lemma not_digit_simps [simp]:
  "\<not> is_digit CHR ''.''" "\<not> is_digit CHR ''-''" "\<not> is_digit CHR ''+''" "\<not> is_digit CHR ''v''"
  by (simp_all add: is_digit_def)

lemma not_ident_plus [simp]: "\<not> is_ident CHR ''+''"
  by (simp add: is_ident_def is_alpha_def is_digit_def)

lemma takeWhile_stop: "ys = [] \<or> \<not> P (hd ys) \<Longrightarrow> takeWhile P ys = []"
  by (cases ys) auto

lemma dropWhile_stop: "ys = [] \<or> \<not> P (hd ys) \<Longrightarrow> dropWhile P ys = ys"
  by (cases ys) auto

lemma takeWhile_run:
  "list_all P xs \<Longrightarrow> ys = [] \<or> \<not> P (hd ys) \<Longrightarrow> takeWhile P (xs @ ys) = xs"
  by (induction xs) (simp_all add: takeWhile_stop)

lemma dropWhile_run:
  "list_all P xs \<Longrightarrow> ys = [] \<or> \<not> P (hd ys) \<Longrightarrow> dropWhile P (xs @ ys) = ys"
  by (induction xs) (simp_all add: dropWhile_stop)

lemma scan_digits_run:
  "digits a \<Longrightarrow> r = [] \<or> \<not> is_digit (hd r) \<Longrightarrow> scan_digits (a @ r) = Some (a, r)"
  by (simp add: scan_digits_def digits_def takeWhile_run dropWhile_run)

lemma scan_opt_group_run:
  "ident_str p \<Longrightarrow> r = [] \<or> \<not> is_ident (hd r) \<Longrightarrow> scan_opt_group sep (sep # p @ r) = (p, r)"
  by (simp add: scan_opt_group_def ident_str_def takeWhile_run dropWhile_run)

lemma scan_opt_group_skip: "r = [] \<or> hd r \<noteq> sep \<Longrightarrow> scan_opt_group sep r = ([], r)"
  by (cases r) (auto simp: scan_opt_group_def)

lemma strip_v_digits: "digits a \<Longrightarrow> strip_v (a @ r) = a @ r"
  by (cases a) (auto simp: strip_v_def digits_def)

lemma Atoi_digits: "digits a \<Longrightarrow> fst (Atoi a) = int_of_digits a"
  by (cases a) (auto simp: Atoi_def digits_def int_of_digits_def Let_def)

text \<open>Every string of the version form parses, and to these fields.\<close>

lemma ParseVersion_join:
  assumes "version_parts pfx a b c p q"
  shows "ParseVersion (join_version pfx a b c p q) =
           Some \<lparr>Major = int_of_digits a, Minor = int_of_digits b, Patch = int_of_digits c,
                  Prerelease = p, Build = q, Original = join_version pfx a b c p q\<rparr>"
proof -
  define bt where "bt = (if q = [] then [] else CHR ''+'' # q)"
  define tl3 where "tl3 = (if p = [] then [] else CHR ''-'' # p) @ bt"
  from assms have da: "digits a" and db: "digits b" and dc: "digits c"
    and pf: "pfx = [] \<or> pfx = ''v''" and ip: "p = [] \<or> ident_str p"
    and iq: "q = [] \<or> ident_str q"
    by (simp_all add: version_parts_def)
  have s0: "strip_v (join_version pfx a b c p q) = a @ (CHR ''.'' # b @ (CHR ''.'' # c @ tl3))"
  proof (cases "pfx = []")
    case True
    then show ?thesis
      using strip_v_digits[OF da, of "CHR ''.'' # b @ (CHR ''.'' # c @ tl3)"]
      by (simp add: join_version_def tl3_def bt_def)
  next
    case False
    with pf have "pfx = ''v''" by simp
    then show ?thesis by (simp add: join_version_def tl3_def bt_def strip_v_def)
  qed
  have s1: "scan_digits (a @ (CHR ''.'' # b @ (CHR ''.'' # c @ tl3)))
              = Some (a, CHR ''.'' # b @ (CHR ''.'' # c @ tl3))"
    by (rule scan_digits_run[OF da]) simp
  have s2: "scan_digits (b @ (CHR ''.'' # c @ tl3)) = Some (b, CHR ''.'' # c @ tl3)"
    by (rule scan_digits_run[OF db]) simp
  have s3: "scan_digits (c @ tl3) = Some (c, tl3)"
    by (rule scan_digits_run[OF dc]) (simp add: tl3_def bt_def)
  have s4: "scan_opt_group CHR ''-'' tl3 = (p, bt)"
  proof (cases "p = []")
    case True
    then show ?thesis
      using scan_opt_group_skip[of bt "CHR ''-''"] by (simp add: tl3_def bt_def)
  next
    case False
    with ip have "ident_str p" by simp
    from scan_opt_group_run[OF this, of bt "CHR ''-''"] False show ?thesis
      by (simp add: tl3_def bt_def)
  qed
  have s5: "scan_opt_group CHR ''+'' bt = (q, [])"
  proof (cases "q = []")
    case True
    then show ?thesis by (simp add: bt_def scan_opt_group_def)
  next
    case False
    with iq have "ident_str q" by simp
    from scan_opt_group_run[OF this, of "[]" "CHR ''+''"] False show ?thesis
      by (simp add: bt_def)
  qed
  show ?thesis
    unfolding ParseVersion_def s0 s1
    by (simp add: expect_dot_def s2 s3 s4 s5 Atoi_digits da db dc)
qed

lemma scan_digits_SomeD: "scan_digits s = Some (a, r) \<Longrightarrow> s = a @ r \<and> digits a"
  by (auto simp: scan_digits_def digits_def list_all_iff split: if_splits dest: set_takeWhileD)

lemma expect_dot_SomeD: "expect_dot s = Some r \<Longrightarrow> s = CHR ''.'' # r"
  by (auto simp: expect_dot_def split: list.splits if_splits)

lemma scan_opt_groupD:
  "scan_opt_group sep s = (p, r) \<Longrightarrow> (p = [] \<and> r = s) \<or> (ident_str p \<and> s = sep # p @ r)"
  by (auto simp: scan_opt_group_def ident_str_def list_all_iff
      split: list.splits if_splits dest: set_takeWhileD)

lemma strip_vD: "strip_v s = x \<Longrightarrow> s = x \<or> s = CHR ''v'' # x"
  by (auto simp: strip_v_def split: list.splits if_splits)

text \<open>Every string that parses has the version form, with the captured parts.\<close>

lemma ParseVersion_SomeD:
  assumes "ParseVersion s = Some ver"
  shows "\<exists>pfx a b c. version_parts pfx a b c (Prerelease ver) (Build ver)
           \<and> s = join_version pfx a b c (Prerelease ver) (Build ver) \<and> Original ver = s"
proof -
  from assms obtain a r1 r2 b r3 r4 c r5 p r6 q where
    1: "scan_digits (strip_v s) = Some (a, r1)" and 2: "expect_dot r1 = Some r2"
    and 3: "scan_digits r2 = Some (b, r3)" and 4: "expect_dot r3 = Some r4"
    and 5: "scan_digits r4 = Some (c, r5)" and 6: "scan_opt_group CHR ''-'' r5 = (p, r6)"
    and 7: "scan_opt_group CHR ''+'' r6 = (q, [])"
    and v: "ver = \<lparr>Major = fst (Atoi a), Minor = fst (Atoi b), Patch = fst (Atoi c),
                   Prerelease = p, Build = q, Original = s\<rparr>"
    by (auto simp: ParseVersion_def split: option.splits prod.splits if_splits)
  from scan_digits_SomeD[OF 1] scan_digits_SomeD[OF 3] scan_digits_SomeD[OF 5]
    expect_dot_SomeD[OF 2] expect_dot_SomeD[OF 4]
  have body: "strip_v s = a @ ''.'' @ b @ ''.'' @ c @ r5" and d: "digits a" "digits b" "digits c"
    by simp_all
  from scan_opt_groupD[OF 6] scan_opt_groupD[OF 7]
  have tl: "r5 = (if p = [] then [] else CHR ''-'' # p) @ (if q = [] then [] else CHR ''+'' # q)"
    and i: "p = [] \<or> ident_str p" "q = [] \<or> ident_str q"
    by (auto simp: ident_str_def)
  from strip_vD[OF body] obtain pfx where pf: "pfx = [] \<or> pfx = ''v''"
    and s: "s = pfx @ a @ ''.'' @ b @ ''.'' @ c @ r5" by auto
  have "version_parts pfx a b c p q" using pf d i by (simp add: version_parts_def)
  moreover have "s = join_version pfx a b c p q" using s tl by (simp add: join_version_def)
  ultimately show ?thesis using v by auto
qed

lemma ParseVersion_Original: "ParseVersion s = Some ver \<Longrightarrow> Original ver = s"
  using ParseVersion_SomeD by blast

lemma ParseVersion_iff_form: "ParseVersion s \<noteq> None \<longleftrightarrow> version_form s"
proof
  assume "ParseVersion s \<noteq> None"
  then obtain ver where "ParseVersion s = Some ver" by auto
  from ParseVersion_SomeD[OF this] show "version_form s"
    unfolding version_form_def by blast
next
  assume "version_form s"
  then obtain pfx a b c p q where "version_parts pfx a b c p q" "s = join_version pfx a b c p q"
    unfolding version_form_def by blast
  then show "ParseVersion s \<noteq> None" using ParseVersion_join by simp
qed

lemma int_of_digits_min: "int_of_digits a = min (int (dec_value 0 a)) max_int"
  by (simp add: int_of_digits_def min_def)

text \<open>
  Claim C9, as amended. \<^verbatim>\<open>ParseVersion\<close> succeeds exactly on the strings of the version
  form (optional \<open>v\<close>, three dot-separated runs of digits, optional \<open>-\<close> prerelease,
  optional \<open>+\<close> build); the stored original text is the input; prerelease and build
  are the written ones; and each of major, minor and patch is the value of the written
  digits when that value is at most \<open>2^63 - 1\<close>, the largest \<^verbatim>\<open>int\<close>, which is also
  what a larger component is stored as.
\<close>

theorem ParseVersion_spec:
  "(ParseVersion s \<noteq> None \<longleftrightarrow> version_form s)
   \<and> (\<forall>ver. ParseVersion s = Some ver \<longrightarrow> Original ver = s)
   \<and> (\<forall>pfx a b c p q.
         version_parts pfx a b c p q \<and> s = join_version pfx a b c p q \<longrightarrow>
         (\<exists>ver. ParseVersion s = Some ver \<and> Original ver = s
            \<and> Prerelease ver = p \<and> Build ver = q
            \<and> Major ver = min (int (dec_value 0 a)) max_int
            \<and> Minor ver = min (int (dec_value 0 b)) max_int
            \<and> Patch ver = min (int (dec_value 0 c)) max_int))"
proof (intro conjI allI impI)
  show "ParseVersion s \<noteq> None \<longleftrightarrow> version_form s" by (rule ParseVersion_iff_form)
next
  fix ver assume "ParseVersion s = Some ver"
  then show "Original ver = s" by (rule ParseVersion_Original)
next
  fix pfx a b c p q
  assume "version_parts pfx a b c p q \<and> s = join_version pfx a b c p q"
  then show "\<exists>ver. ParseVersion s = Some ver \<and> Original ver = s
            \<and> Prerelease ver = p \<and> Build ver = q
            \<and> Major ver = min (int (dec_value 0 a)) max_int
            \<and> Minor ver = min (int (dec_value 0 b)) max_int
            \<and> Patch ver = min (int (dec_value 0 c)) max_int"
    using ParseVersion_join[of pfx a b c p q] by (simp add: int_of_digits_min)
qed

theorem ParseVersion_spec_witness:
  "version_parts ''v'' ''1'' ''2'' ''3'' ''rc.1'' ''build-5''
   \<and> ''v1.2.3-rc.1+build-5'' = join_version ''v'' ''1'' ''2'' ''3'' ''rc.1'' ''build-5''
   \<and> ParseVersion ''v1.2.3-rc.1+build-5''
       = Some \<lparr>Major = 1, Minor = 2, Patch = 3, Prerelease = ''rc.1'', Build = ''build-5'',
                Original = ''v1.2.3-rc.1+build-5''\<rparr>
   \<and> version_form ''v1.2.3-rc.1+build-5''"
proof -
  have parts: "version_parts ''v'' ''1'' ''2'' ''3'' ''rc.1'' ''build-5''"
    by (simp add: version_parts_def digits_def ident_str_def is_digit_def is_ident_def is_alpha_def)
  have joined: "''v1.2.3-rc.1+build-5'' = join_version ''v'' ''1'' ''2'' ''3'' ''rc.1'' ''build-5''"
    by (simp add: join_version_def)
  have parsed: "ParseVersion ''v1.2.3-rc.1+build-5''
       = Some \<lparr>Major = 1, Minor = 2, Patch = 3, Prerelease = ''rc.1'', Build = ''build-5'',
                Original = ''v1.2.3-rc.1+build-5''\<rparr>"
    by (simp add: parse_defs)
  from ParseVersion_spec[of "''v1.2.3-rc.1+build-5''"] parsed
  have "version_form ''v1.2.3-rc.1+build-5''" by simp
  with parts joined parsed show ?thesis by simp
qed

text \<open>
  Claim C9 as stated fails on a component beyond the range of \<^verbatim>\<open>int\<close>: the tag
  \<open>9223372036854775808.0.0\<close> is accepted and its major is stored as
  \<open>9223372036854775807\<close>.
\<close>

theorem ParseVersion_overflow_counterexample:
  "ParseVersion ''9223372036854775808.0.0'' \<noteq> None
   \<and> map_option Major (ParseVersion ''9223372036854775808.0.0'') = Some 9223372036854775807
   \<and> int (dec_value 0 ''9223372036854775808'') = 9223372036854775808"
  by (simp add: parse_defs)

section \<open>Properties of the comparison\<close>

lemma strings_Compare_refl: "strings_Compare a a = 0"
  by (simp add: strings_Compare_def)

lemma strings_Compare_flip: "strings_Compare a b = - strings_Compare b a"
  by (auto simp: strings_Compare_def)

lemma strings_Compare_range: "strings_Compare a b \<in> {- 1, 0, 1}"
  by (simp add: strings_Compare_def)

lemma strings_Compare_le: "strings_Compare a b \<le> 0 \<longleftrightarrow> a \<le> b"
  by (auto simp: strings_Compare_def)

lemma strings_Compare_eq: "strings_Compare a b = 0 \<longleftrightarrow> a = b"
  by (auto simp: strings_Compare_def)

lemma Compare_refl: "Compare a a = 0"
  by (simp add: Compare_def strings_Compare_refl)

lemma Compare_range: "Compare a b \<in> {- 1, 0, 1}"
  using strings_Compare_range[of "Prerelease a" "Prerelease b"]
  by (auto simp: Compare_def)

lemma Compare_flip: "Compare a b = - Compare b a"
  using strings_Compare_flip[of "Prerelease a" "Prerelease b"]
  by (auto simp: Compare_def)

lemma Compare_eq_0:
  "Compare a b = 0 \<longleftrightarrow>
     Major a = Major b \<and> Minor a = Minor b \<and> Patch a = Patch b \<and> Prerelease a = Prerelease b"
  by (auto simp: Compare_def strings_Compare_eq)

lemma Compare_le_0: "Compare a b \<le> 0 \<longleftrightarrow> version_le a b"
  by (auto simp: Compare_def version_le_def strings_Compare_le)

lemma version_le_trans: "version_le a b \<Longrightarrow> version_le b c \<Longrightarrow> version_le a c"
  unfolding version_le_def by (auto dest: order_trans)

lemma Compare_trans: "Compare a b \<le> 0 \<Longrightarrow> Compare b c \<le> 0 \<Longrightarrow> Compare a c \<le> 0"
  unfolding Compare_le_0 by (rule version_le_trans)

lemma Compare_antisym:
  assumes "Compare a b \<le> 0" and "Compare b a \<le> 0"
  shows "Compare a b = 0"
  using assms Compare_flip[of a b] by linarith

lemma Compare_Build: "Compare (a\<lparr>Build := x\<rparr>) (b\<lparr>Build := y\<rparr>) = Compare a b"
  by (simp add: Compare_def)

text \<open>
  Claim C5. \<^verbatim>\<open>Compare\<close> is a total order on versions, up to the fields it reads:
  reflexive, antisymmetric (two versions each not above the other agree on major,
  minor, patch and prerelease), transitive and total, with values \<open>-1\<close>, \<open>0\<close>, \<open>1\<close>.
  It is decided by major, then minor, then patch; on equal numbers a version without
  prerelease is greater than one with a prerelease and two prereleases compare as
  byte strings; the build metadata never takes part.
\<close>

theorem Compare_total_order:
  "Compare a a = 0
   \<and> Compare a b = - Compare b a
   \<and> Compare a b \<in> {- 1, 0, 1}
   \<and> (Compare a b \<le> 0 \<and> Compare b a \<le> 0 \<longrightarrow>
        Major a = Major b \<and> Minor a = Minor b \<and> Patch a = Patch b
        \<and> Prerelease a = Prerelease b)
   \<and> (Compare a b \<le> 0 \<and> Compare b c \<le> 0 \<longrightarrow> Compare a c \<le> 0)
   \<and> (Major a < Major b \<longrightarrow> Compare a b = - 1)
   \<and> (Major a = Major b \<and> Minor a < Minor b \<longrightarrow> Compare a b = - 1)
   \<and> (Major a = Major b \<and> Minor a = Minor b \<and> Patch a < Patch b \<longrightarrow> Compare a b = - 1)
   \<and> (Major a = Major b \<and> Minor a = Minor b \<and> Patch a = Patch b \<longrightarrow>
        Compare a b =
          (if Prerelease a = [] \<and> Prerelease b = [] then 0
           else if Prerelease a = [] then 1
           else if Prerelease b = [] then - 1
           else strings_Compare (Prerelease a) (Prerelease b)))
   \<and> strings_Compare (Prerelease a) (Prerelease b) =
        (if Prerelease a = Prerelease b then 0
         else if Prerelease a < Prerelease b then - 1 else 1)
   \<and> Compare (a\<lparr>Build := x\<rparr>) (b\<lparr>Build := y\<rparr>) = Compare a b"
proof (intro conjI)
  show "Compare a a = 0" by (rule Compare_refl)
  show "Compare a b = - Compare b a" by (rule Compare_flip)
  show "Compare a b \<in> {- 1, 0, 1}" by (rule Compare_range)
  show "Compare a b \<le> 0 \<and> Compare b a \<le> 0 \<longrightarrow>
        Major a = Major b \<and> Minor a = Minor b \<and> Patch a = Patch b
        \<and> Prerelease a = Prerelease b"
    using Compare_antisym[of a b] Compare_eq_0[of a b] by blast
  show "Compare a b \<le> 0 \<and> Compare b c \<le> 0 \<longrightarrow> Compare a c \<le> 0"
    using Compare_trans[of a b c] by blast
  show "Major a < Major b \<longrightarrow> Compare a b = - 1" by (simp add: Compare_def)
  show "Major a = Major b \<and> Minor a < Minor b \<longrightarrow> Compare a b = - 1"
    by (simp add: Compare_def)
  show "Major a = Major b \<and> Minor a = Minor b \<and> Patch a < Patch b \<longrightarrow> Compare a b = - 1"
    by (simp add: Compare_def)
  show "Major a = Major b \<and> Minor a = Minor b \<and> Patch a = Patch b \<longrightarrow>
        Compare a b =
          (if Prerelease a = [] \<and> Prerelease b = [] then 0
           else if Prerelease a = [] then 1
           else if Prerelease b = [] then - 1
           else strings_Compare (Prerelease a) (Prerelease b))"
    by (simp add: Compare_def)
  show "strings_Compare (Prerelease a) (Prerelease b) =
        (if Prerelease a = Prerelease b then 0
         else if Prerelease a < Prerelease b then - 1 else 1)"
    by (simp add: strings_Compare_def)
  show "Compare (a\<lparr>Build := x\<rparr>) (b\<lparr>Build := y\<rparr>) = Compare a b" by (rule Compare_Build)
qed

theorem Compare_total_order_witness:
  "ParseVersion ''1.2.3-alpha'' = Some \<lparr>Major = 1, Minor = 2, Patch = 3, Prerelease = ''alpha'', Build = [], Original = ''1.2.3-alpha''\<rparr>
   \<and> ParseVersion ''1.2.3+b7'' = Some \<lparr>Major = 1, Minor = 2, Patch = 3, Prerelease = [], Build = ''b7'', Original = ''1.2.3+b7''\<rparr>
   \<and> ParseVersion ''v1.3.0'' = Some \<lparr>Major = 1, Minor = 3, Patch = 0, Prerelease = [], Build = [], Original = ''v1.3.0''\<rparr>
   \<and> Compare \<lparr>Major = 1, Minor = 2, Patch = 3, Prerelease = ''alpha'', Build = [], Original = ''1.2.3-alpha''\<rparr>
        \<lparr>Major = 1, Minor = 2, Patch = 3, Prerelease = [], Build = ''b7'', Original = ''1.2.3+b7''\<rparr> \<le> 0
   \<and> Compare \<lparr>Major = 1, Minor = 2, Patch = 3, Prerelease = [], Build = ''b7'', Original = ''1.2.3+b7''\<rparr>
        \<lparr>Major = 1, Minor = 3, Patch = 0, Prerelease = [], Build = [], Original = ''v1.3.0''\<rparr> \<le> 0
   \<and> Compare \<lparr>Major = 1, Minor = 2, Patch = 3, Prerelease = ''alpha'', Build = [], Original = ''1.2.3-alpha''\<rparr>
        \<lparr>Major = 1, Minor = 3, Patch = 0, Prerelease = [], Build = [], Original = ''v1.3.0''\<rparr> \<le> 0
   \<and> Compare \<lparr>Major = 1, Minor = 2, Patch = 3, Prerelease = [], Build = ''b7'', Original = ''1.2.3+b7''\<rparr>
        \<lparr>Major = 1, Minor = 2, Patch = 3, Prerelease = ''alpha'', Build = [], Original = ''1.2.3-alpha''\<rparr> = 1"
  using Compare_total_order[of
      "\<lparr>Major = 1, Minor = 2, Patch = 3, Prerelease = ''alpha'', Build = [], Original = ''1.2.3-alpha''\<rparr>"
      "\<lparr>Major = 1, Minor = 2, Patch = 3, Prerelease = [], Build = ''b7'', Original = ''1.2.3+b7''\<rparr>"
      "\<lparr>Major = 1, Minor = 3, Patch = 0, Prerelease = [], Build = [], Original = ''v1.3.0''\<rparr>"]
  by (simp add: parse_defs Compare_def)

section \<open>Properties of the update decision\<close>

lemma pin_ok_simps:
  "Atoi ''17'' = (17, True)"
  by (simp add: Atoi_def is_digit_def max_int_def min_int_def)

text \<open>
  Claim C6. With both tags parsed: when the candidate does not compare greater than
  the current version, the decision is a denial with the reason "latest version is not
  newer than current", whatever the policy and the pin, and so for current and
  candidate both \<open>1.2.3\<close>; when it compares greater and the pin is set to an integer
  other than the candidate's major, the decision is a denial with the pin-boundary
  reason, whatever the policy.
\<close>

theorem IsUpdateAllowed_not_newer_and_pin:
  "(\<forall>cv lv. ParseVersion current = Some cv \<and> ParseVersion latest = Some lv
       \<and> Compare lv cv \<le> 0 \<longrightarrow>
       IsUpdateAllowed current latest policy pin
         = (False, ''latest version is not newer than current''))
   \<and> IsUpdateAllowed ''1.2.3'' ''1.2.3'' policy pin
         = (False, ''latest version is not newer than current'')
   \<and> (\<forall>cv lv pinMajor. ParseVersion current = Some cv \<and> ParseVersion latest = Some lv
       \<and> \<not> Compare lv cv \<le> 0 \<and> pin \<noteq> [] \<and> Atoi pin = (pinMajor, True)
       \<and> Major lv \<noteq> pinMajor \<longrightarrow>
       IsUpdateAllowed current latest policy pin
         = (False, ''update would cross pin boundary (pinned to major ''
                     @ show_int pinMajor @ '')''))"
proof (intro conjI allI impI)
  fix cv lv
  assume "ParseVersion current = Some cv \<and> ParseVersion latest = Some lv \<and> Compare lv cv \<le> 0"
  then show "IsUpdateAllowed current latest policy pin
         = (False, ''latest version is not newer than current'')"
    by (simp add: IsUpdateAllowed_def)
next
  have "ParseVersion ''1.2.3'' = Some \<lparr>Major = 1, Minor = 2, Patch = 3, Prerelease = [],
          Build = [], Original = ''1.2.3''\<rparr>"
    by (simp add: parse_defs)
  then show "IsUpdateAllowed ''1.2.3'' ''1.2.3'' policy pin
         = (False, ''latest version is not newer than current'')"
    by (simp add: IsUpdateAllowed_def Compare_def)
next
  fix cv lv pinMajor
  assume "ParseVersion current = Some cv \<and> ParseVersion latest = Some lv
       \<and> \<not> Compare lv cv \<le> 0 \<and> pin \<noteq> [] \<and> Atoi pin = (pinMajor, True)
       \<and> Major lv \<noteq> pinMajor"
  then show "IsUpdateAllowed current latest policy pin
         = (False, ''update would cross pin boundary (pinned to major ''
                     @ show_int pinMajor @ '')'')"
    by (simp add: IsUpdateAllowed_def)
qed

theorem IsUpdateAllowed_not_newer_and_pin_witness:
  "ParseVersion ''17.1.0'' = Some \<lparr>Major = 17, Minor = 1, Patch = 0, Prerelease = [], Build = [], Original = ''17.1.0''\<rparr>
   \<and> ParseVersion ''18.0.0'' = Some \<lparr>Major = 18, Minor = 0, Patch = 0, Prerelease = [], Build = [], Original = ''18.0.0''\<rparr>
   \<and> Compare \<lparr>Major = 17, Minor = 1, Patch = 0, Prerelease = [], Build = [], Original = ''17.1.0''\<rparr>
        \<lparr>Major = 18, Minor = 0, Patch = 0, Prerelease = [], Build = [], Original = ''18.0.0''\<rparr> \<le> 0
   \<and> \<not> Compare \<lparr>Major = 18, Minor = 0, Patch = 0, Prerelease = [], Build = [], Original = ''18.0.0''\<rparr>
        \<lparr>Major = 17, Minor = 1, Patch = 0, Prerelease = [], Build = [], Original = ''17.1.0''\<rparr> \<le> 0
   \<and> Atoi ''17'' = (17, True)
   \<and> IsUpdateAllowed ''18.0.0'' ''17.1.0'' AutoAll ''17''
        = (False, ''latest version is not newer than current'')
   \<and> IsUpdateAllowed ''17.1.0'' ''18.0.0'' AutoAll ''17''
        = (False, ''update would cross pin boundary (pinned to major 17)'')"
proof -
  have p17: "ParseVersion ''17.1.0'' = Some \<lparr>Major = 17, Minor = 1, Patch = 0, Prerelease = [], Build = [], Original = ''17.1.0''\<rparr>"
    by (simp add: parse_defs)
  have p18: "ParseVersion ''18.0.0'' = Some \<lparr>Major = 18, Minor = 0, Patch = 0, Prerelease = [], Build = [], Original = ''18.0.0''\<rparr>"
    by (simp add: parse_defs)
  have c1: "Compare \<lparr>Major = 17, Minor = 1, Patch = 0, Prerelease = [], Build = [], Original = ''17.1.0''\<rparr>
        \<lparr>Major = 18, Minor = 0, Patch = 0, Prerelease = [], Build = [], Original = ''18.0.0''\<rparr> \<le> 0"
    by (simp add: Compare_def)
  have c2: "\<not> Compare \<lparr>Major = 18, Minor = 0, Patch = 0, Prerelease = [], Build = [], Original = ''18.0.0''\<rparr>
        \<lparr>Major = 17, Minor = 1, Patch = 0, Prerelease = [], Build = [], Original = ''17.1.0''\<rparr> \<le> 0"
    by (simp add: Compare_def)
  have s17: "show_int 17 = ''17''" by (simp add: show_int_def digit_char_def)
  from IsUpdateAllowed_not_newer_and_pin[of "''18.0.0''" "''17.1.0''" AutoAll "''17''"] p17 p18 c1
  have r1: "IsUpdateAllowed ''18.0.0'' ''17.1.0'' AutoAll ''17''
        = (False, ''latest version is not newer than current'')"
    by blast
  from IsUpdateAllowed_not_newer_and_pin[of "''17.1.0''" "''18.0.0''" AutoAll "''17''"] p17 p18 c2 pin_ok_simps
  have "IsUpdateAllowed ''17.1.0'' ''18.0.0'' AutoAll ''17''
        = (False, ''update would cross pin boundary (pinned to major '' @ show_int 17 @ '')'')"
    by (simp del: One_nat_def)
  then have r2: "IsUpdateAllowed ''17.1.0'' ''18.0.0'' AutoAll ''17''
        = (False, ''update would cross pin boundary (pinned to major 17)'')"
    by (simp add: s17)
  from p17 p18 c1 c2 pin_ok_simps r1 r2 show ?thesis by simp
qed

text \<open>
  Claim C7. With both tags parsed, the candidate greater and the pin check passed (no
  pin, or a pin equal to the candidate's major): notify-only denies; auto-patch allows
  exactly when major and minor are unchanged and otherwise denies with the patch-only
  reason; auto-minor allows exactly when the major is unchanged and otherwise denies
  with the minor-and-patch-only reason; auto-all allows.
\<close>

theorem IsUpdateAllowed_policy:
  assumes "ParseVersion current = Some cv" and "ParseVersion latest = Some lv"
    and "Compare lv cv > 0"
    and "pin = [] \<or> Atoi pin = (Major lv, True)"
  shows "IsUpdateAllowed current latest NotifyOnly pin
           = (False, ''notify-only policy - update available but not applied'')
   \<and> IsUpdateAllowed current latest AutoPatch pin
           = (if Major lv = Major cv \<and> Minor lv = Minor cv
              then (True, ''patch update allowed'')
              else (False, ''auto-patch policy only allows patch updates''))
   \<and> IsUpdateAllowed current latest AutoMinor pin
           = (if Major lv = Major cv
              then (True, ''minor/patch update allowed'')
              else (False, ''auto-minor policy only allows minor and patch updates''))
   \<and> IsUpdateAllowed current latest AutoAll pin
           = (True, ''auto-all policy allows all updates'')"
proof -
  from assms(4) have pin_ok: "pin = [] \<or> (snd (Atoi pin) \<and> fst (Atoi pin) = Major lv)"
    by auto
  from assms(3) have newer: "\<not> Compare lv cv \<le> 0" by simp
  show ?thesis
    using assms(1,2) newer pin_ok
    by (auto simp: IsUpdateAllowed_def NotifyOnly_def AutoPatch_def AutoMinor_def AutoAll_def)
qed

theorem IsUpdateAllowed_policy_witness:
  "IsUpdateAllowed ''1.2.3'' ''1.3.0'' NotifyOnly []
           = (False, ''notify-only policy - update available but not applied'')
   \<and> IsUpdateAllowed ''1.2.3'' ''1.3.0'' AutoPatch []
           = (False, ''auto-patch policy only allows patch updates'')
   \<and> IsUpdateAllowed ''1.2.3'' ''1.3.0'' AutoMinor []
           = (True, ''minor/patch update allowed'')
   \<and> IsUpdateAllowed ''1.2.3'' ''1.3.0'' AutoAll []
           = (True, ''auto-all policy allows all updates'')"
proof -
  have p1: "ParseVersion ''1.2.3'' = Some \<lparr>Major = 1, Minor = 2, Patch = 3, Prerelease = [], Build = [], Original = ''1.2.3''\<rparr>"
    by (simp add: parse_defs)
  have p2: "ParseVersion ''1.3.0'' = Some \<lparr>Major = 1, Minor = 3, Patch = 0, Prerelease = [], Build = [], Original = ''1.3.0''\<rparr>"
    by (simp add: parse_defs)
  have c: "Compare \<lparr>Major = 1, Minor = 3, Patch = 0, Prerelease = [], Build = [], Original = ''1.3.0''\<rparr>
             \<lparr>Major = 1, Minor = 2, Patch = 3, Prerelease = [], Build = [], Original = ''1.2.3''\<rparr> > 0"
    by (simp add: Compare_def)
  from IsUpdateAllowed_policy[OF p1 p2 c, of "[]"] show ?thesis by simp
qed

text \<open>
  Claim C8. When the current tag does not parse, the update is allowed exactly when
  the policy is auto-all and the candidate text differs from the current text, and
  every other policy denies with the reason that names the policy and asks for an
  explicit semver; when the current tag parses and the candidate does not, the
  decision is a denial with the reason that the latest tag is not semver. Current
  \<open>latest\<close> and candidate \<open>stable\<close> under auto-all are allowed.
\<close>

theorem IsUpdateAllowed_non_semver:
  "(ParseVersion current = None \<longrightarrow>
      fst (IsUpdateAllowed current latest policy pin) = (policy = AutoAll \<and> current \<noteq> latest)
      \<and> (policy \<noteq> AutoAll \<longrightarrow>
            IsUpdateAllowed current latest policy pin
              = (False, ''non-semver tag, policy '' @ policy @ '' requires explicit semver'')))
   \<and> (ParseVersion current \<noteq> None \<and> ParseVersion latest = None \<longrightarrow>
         IsUpdateAllowed current latest policy pin
           = (False, ''latest tag '' @ latest @ '' is not semver''))
   \<and> ParseVersion ''latest'' = None
   \<and> IsUpdateAllowed ''latest'' ''stable'' AutoAll [] = (True, ''non-semver update (auto-all policy)'')"
proof -
  have "ParseVersion ''latest'' = None" by (simp add: parse_defs)
  then show ?thesis by (auto simp: IsUpdateAllowed_def)
qed

theorem IsUpdateAllowed_non_semver_witness:
  "ParseVersion ''latest'' = None
   \<and> IsUpdateAllowed ''latest'' ''stable'' AutoPatch []
        = (False, ''non-semver tag, policy auto-patch requires explicit semver'')
   \<and> IsUpdateAllowed ''latest'' ''latest'' AutoAll [] = (False, ''non-semver update (auto-all policy)'')
   \<and> ParseVersion ''1.2.3'' \<noteq> None \<and> ParseVersion ''stable'' = None
   \<and> IsUpdateAllowed ''1.2.3'' ''stable'' AutoAll [] = (False, ''latest tag stable is not semver'')"
proof -
  have p0: "ParseVersion ''latest'' = None" by (simp add: parse_defs)
  have p1: "ParseVersion ''1.2.3'' \<noteq> None" by (simp add: parse_defs)
  have p2: "ParseVersion ''stable'' = None" by (simp add: parse_defs)
  have ne: "AutoPatch \<noteq> AutoAll" by (simp add: AutoPatch_def AutoAll_def)
  from IsUpdateAllowed_non_semver[of "''latest''" "''stable''" AutoPatch "[]"] p0 ne
  have r1: "IsUpdateAllowed ''latest'' ''stable'' AutoPatch []
        = (False, ''non-semver tag, policy auto-patch requires explicit semver'')"
    by (simp add: AutoPatch_def)
  have r2: "IsUpdateAllowed ''latest'' ''latest'' AutoAll [] = (False, ''non-semver update (auto-all policy)'')"
    using p0 by (simp add: IsUpdateAllowed_def)
  from IsUpdateAllowed_non_semver[of "''1.2.3''" "''stable''" AutoAll "[]"] p1 p2
  have r3: "IsUpdateAllowed ''1.2.3'' ''stable'' AutoAll [] = (False, ''latest tag stable is not semver'')"
    by simp
  from p0 p1 p2 r1 r2 r3 show ?thesis by simp
qed

section \<open>Properties of the tag selection\<close>




lemma Compare_total: "Compare a b \<le> 0 \<or> Compare b a \<le> 0"
  using Compare_flip[of a b] by linarith







lemmas select_defs =
  select_tag_def FindLatestVersion_def FilterPrereleaseTags_def stable_versions_def
  List.map_filter_def latest_version_def latest_tag_def stable_tag_def



section \<open>Properties of the check cycle\<close>

lemmas world_defs = two_apps_def steady_world_def missing_world_def NewWatcher_def

lemmas watcher_defs =
  checkApplications_def getApplicationsToCheck_def checkAndUpdateApp_def
  performUpdate_def in_cooldown_def new_status_def emit_def time_Sleep_def updateDelay_def
  GetUpdatePolicy_def ExtractImageAndTag_def BuildImageReference_def

lemma emit_simps [simp]:
  "appStatuses (emit e w) = appStatuses w" "lastUpdates (emit e w) = lastUpdates w"
  "lastCheck (emit e w) = lastCheck w" "now (emit e w) = now w"
  "history (emit e w) = history w @ [e]"
  by (simp_all add: emit_def)

lemma time_Sleep_simps [simp]:
  "appStatuses (time_Sleep d w) = appStatuses w" "lastUpdates (time_Sleep d w) = lastUpdates w"
  "lastCheck (time_Sleep d w) = lastCheck w" "now (time_Sleep d w) = now w + d"
  "history (time_Sleep d w) = history w @ [Sleep d]"
  by (simp_all add: time_Sleep_def)

lemma in_cooldown_emit [simp]: "in_cooldown W cfg app (emit e w) = in_cooldown W cfg app w"
  by (simp add: in_cooldown_def Let_def split: option.splits)

lemma fetched_append [simp]: "fetched (xs @ ys) = fetched xs @ fetched ys"
  by (induction xs) (simp_all add: fetched_def split: event.splits)

lemma fetched_simps [simp]:
  "fetched [] = []"
  "fetched (CallGetApplication u # es) = u # fetched es"
  "fetched (CallListApplications # es) = fetched es"
  "fetched (CallGetLatestTag i # es) = fetched es"
  "fetched (CallUpdateApplication u i # es) = fetched es"
  "fetched (CallRestartApplication u # es) = fetched es"
  "fetched (Sleep d # es) = fetched es"
  "fetched (LogCheckFailed u e # es) = fetched es"
  by (simp_all add: fetched_def)

lemma performUpdate_frame:
  assumes "performUpdate W app tag w = (r, w')"
  shows "appStatuses w' = appStatuses w \<and> lastUpdates w' = lastUpdates w
         \<and> lastCheck w' = lastCheck w \<and> now w' = now w
         \<and> fetched (history w') = fetched (history w)"
  using assms
  by (auto simp: performUpdate_def Let_def split: option.splits)

text \<open>
  The three ways a check of one application ends: with an error, skipped by the
  cooldown, or with a status record stored under the application's identifier.
\<close>

lemma checkAndUpdateApp_cases:
  assumes "checkAndUpdateApp W cfg dryRun app w = (r, w')"
  shows "(r \<noteq> None \<longrightarrow> appStatuses w' = appStatuses w \<and> lastUpdates w' = lastUpdates w)
   \<and> (r = None \<and> in_cooldown W cfg app w \<longrightarrow>
         appStatuses w' = appStatuses w \<and> lastUpdates w' = lastUpdates w)
   \<and> (r = None \<and> \<not> in_cooldown W cfg app w \<longrightarrow>
         (\<exists>currentApp latestTag st.
            GetApplication W (history w) (app_UUID app) = Inr currentApp
          \<and> GetLatestTag W (history w @ [CallGetApplication (app_UUID app)]) (app_Image app)
                (defaults_ExcludePatterns (Defaults cfg)) = Inr latestTag
          \<and> appStatuses w' = (appStatuses w)(app_UUID app \<mapsto> st)
          \<and> status_Name st = app_Name app \<and> status_UUID st = app_UUID app
          \<and> status_Image st = app_Image app
          \<and> status_CurrentTag st = snd (ExtractImageAndTag (capp_DockerImage currentApp))
          \<and> status_LatestTag st = latestTag
          \<and> status_Policy st = GetUpdatePolicy app (Defaults cfg)
          \<and> status_UpdateNeeded st =
                fst (IsUpdateAllowed (snd (ExtractImageAndTag (capp_DockerImage currentApp)))
                       latestTag (GetUpdatePolicy app (Defaults cfg)) (app_Pin app))
          \<and> status_LastCheck st = now w))"
proof (cases "GetApplication W (history w) (app_UUID app)")
  case (Inl e)
  with assms show ?thesis by (auto simp: checkAndUpdateApp_def Let_def)
next
  case ga: (Inr currentApp)
  show ?thesis
  proof (cases "in_cooldown W cfg app w")
    case True
    with assms ga show ?thesis by (auto simp: checkAndUpdateApp_def Let_def)
  next
    case cd: False
    show ?thesis
    proof (cases "GetLatestTag W (history w @ [CallGetApplication (app_UUID app)]) (app_Image app)
                (defaults_ExcludePatterns (Defaults cfg))")
      case (Inl e)
      with assms ga cd show ?thesis by (auto simp: checkAndUpdateApp_def Let_def)
    next
      case lt: (Inr latestTag)
      define w2 where
        "w2 = emit (CallGetLatestTag (app_Image app)) (emit (CallGetApplication (app_UUID app)) w)"
      define allowed where
        "allowed = fst (IsUpdateAllowed (snd (ExtractImageAndTag (capp_DockerImage currentApp)))
                       latestTag (GetUpdatePolicy app (Defaults cfg)) (app_Pin app))"
      define st where
        "st = (new_status cfg app (snd (ExtractImageAndTag (capp_DockerImage currentApp)))
                 latestTag (now w2))\<lparr>status_UpdateNeeded := allowed\<rparr>"
      have w2: "appStatuses w2 = appStatuses w" "lastUpdates w2 = lastUpdates w" "now w2 = now w"
        by (simp_all add: w2_def)
      have eq: "checkAndUpdateApp W cfg dryRun app w =
          (if \<not> allowed
           then (None, w2\<lparr>appStatuses := (appStatuses w2)(app_UUID app \<mapsto> st)\<rparr>)
           else if dryRun
           then (None, w2\<lparr>appStatuses := (appStatuses w2)(app_UUID app \<mapsto> st)\<rparr>)
           else (case performUpdate W app latestTag w2 of
                   (Some e, w3) \<Rightarrow> (Some (''performing update: '' @ e), w3)
                 | (None, w3) \<Rightarrow>
                     (None, w3\<lparr>lastUpdates := (lastUpdates w3)(app_UUID app \<mapsto> now w3),
                               appStatuses := (appStatuses w3)(app_UUID app \<mapsto>
                                 st\<lparr>status_LastUpdate := Some (now w3)\<rparr>)\<rparr>)))"
        unfolding checkAndUpdateApp_def Let_def w2_def allowed_def st_def
        using ga cd lt by simp
      have st_fields:
        "status_Name st = app_Name app" "status_UUID st = app_UUID app"
        "status_Image st = app_Image app"
        "status_CurrentTag st = snd (ExtractImageAndTag (capp_DockerImage currentApp))"
        "status_LatestTag st = latestTag" "status_Policy st = GetUpdatePolicy app (Defaults cfg)"
        "status_UpdateNeeded st = allowed" "status_LastCheck st = now w"
        by (simp_all add: st_def new_status_def w2)
      show ?thesis
      proof (cases "\<not> allowed \<or> dryRun")
        case True
        with assms eq w2 have "r = None" "appStatuses w' = (appStatuses w)(app_UUID app \<mapsto> st)"
          by (auto split: if_splits)
        with ga lt cd st_fields show ?thesis unfolding allowed_def by blast
      next
        case False
        obtain r3 w3 where pu: "performUpdate W app latestTag w2 = (r3, w3)"
          by (cases "performUpdate W app latestTag w2") auto
        from performUpdate_frame[OF pu] w2
        have fr: "appStatuses w3 = appStatuses w" "lastUpdates w3 = lastUpdates w"
          by simp_all
        show ?thesis
        proof (cases r3)
          case None
          with assms eq False pu fr have "r = None"
            "appStatuses w' = (appStatuses w)(app_UUID app \<mapsto> st\<lparr>status_LastUpdate := Some (now w3)\<rparr>)"
            by auto
          moreover have "status_Name (st\<lparr>status_LastUpdate := Some (now w3)\<rparr>) = app_Name app"
            "status_UUID (st\<lparr>status_LastUpdate := Some (now w3)\<rparr>) = app_UUID app"
            "status_Image (st\<lparr>status_LastUpdate := Some (now w3)\<rparr>) = app_Image app"
            "status_CurrentTag (st\<lparr>status_LastUpdate := Some (now w3)\<rparr>)
               = snd (ExtractImageAndTag (capp_DockerImage currentApp))"
            "status_LatestTag (st\<lparr>status_LastUpdate := Some (now w3)\<rparr>) = latestTag"
            "status_Policy (st\<lparr>status_LastUpdate := Some (now w3)\<rparr>) = GetUpdatePolicy app (Defaults cfg)"
            "status_UpdateNeeded (st\<lparr>status_LastUpdate := Some (now w3)\<rparr>) = allowed"
            "status_LastCheck (st\<lparr>status_LastUpdate := Some (now w3)\<rparr>) = now w"
            using st_fields by simp_all
          ultimately show ?thesis using ga lt cd unfolding allowed_def by blast
        next
          case (Some e)
          with assms eq False pu fr show ?thesis by auto
        qed
      qed
    qed
  qed
qed


lemma checkAndUpdateApp_frame:
  assumes "checkAndUpdateApp W cfg dryRun app w = (r, w')"
  shows "lastCheck w' = lastCheck w \<and> now w' = now w
         \<and> fetched (history w') = fetched (history w) @ [app_UUID app]"
proof -
  have pu: "\<And>tag w0 r3 w3. performUpdate W app tag w0 = (r3, w3) \<Longrightarrow>
      lastCheck w3 = lastCheck w0 \<and> now w3 = now w0 \<and> fetched (history w3) = fetched (history w0)"
    using performUpdate_frame by blast
  show ?thesis
    using assms
    by (auto simp: checkAndUpdateApp_def Let_def
        split: sum.splits if_splits prod.splits option.splits dest!: pu)
qed

lemma checkAndUpdateApp_other:
  assumes "checkAndUpdateApp W cfg dryRun app w = (r, w')" and "u \<noteq> app_UUID app"
  shows "appStatuses w' u = appStatuses w u"
  using checkAndUpdateApp_cases[OF assms(1)] assms(2)
  by (cases "r = None"; cases "in_cooldown W cfg app w") auto

lemma checkAndUpdateApp_missing:
  assumes "checkAndUpdateApp W cfg dryRun app w = (r, w')"
    and "isl (GetApplication W (history w) (app_UUID app))"
  shows "appStatuses w' = appStatuses w \<and> lastUpdates w' = lastUpdates w \<and> r \<noteq> None"
  using assms by (auto simp: checkAndUpdateApp_def Let_def split: sum.splits)

text \<open>One turn of the loop: the check, then the log record or the pause.\<close>

lemma check_loop_Cons:
  obtains r w' w'' where
    "checkAndUpdateApp W cfg dryRun app w = (r, w')"
    "check_loop W cfg dryRun (app # rest) w = check_loop W cfg dryRun rest w''"
    "appStatuses w'' = appStatuses w'" "lastUpdates w'' = lastUpdates w'"
    "lastCheck w'' = lastCheck w'" "fetched (history w'') = fetched (history w')"
proof (cases "checkAndUpdateApp W cfg dryRun app w")
  case (Pair r w')
  show ?thesis
  proof (cases r)
    case None
    with Pair that[of r w' "if rest \<noteq> [] then time_Sleep updateDelay w' else w'"]
    show ?thesis by simp
  next
    case (Some e)
    with Pair that[of r w' "emit (LogCheckFailed (app_UUID app) e) w'"]
    show ?thesis by simp
  qed
qed


text \<open>Every application of the list is fetched, in order, whatever the earlier checks gave.\<close>

lemma check_loop_fetched:
  "fetched (history (check_loop W cfg dryRun apps w)) = fetched (history w) @ map app_UUID apps"
proof (induction apps arbitrary: w)
  case Nil
  show ?case by simp
next
  case (Cons app rest)
  obtain r w' w'' where
    c: "checkAndUpdateApp W cfg dryRun app w = (r, w')"
    and l: "check_loop W cfg dryRun (app # rest) w = check_loop W cfg dryRun rest w''"
    and f: "fetched (history w'') = fetched (history w')"
    by (rule check_loop_Cons)
  from checkAndUpdateApp_frame[OF c] f Cons.IH[of w''] l show ?case by simp
qed


text \<open>
  An application the deployment controller does not know keeps its entry through the
  whole loop.
\<close>

lemma check_loop_missing:
  assumes "\<forall>h. isl (GetApplication W h u)"
  shows "appStatuses (check_loop W cfg dryRun apps w) u = appStatuses w u"
proof (induction apps arbitrary: w)
  case Nil
  show ?case by simp
next
  case (Cons app rest)
  obtain r w' w'' where
    c: "checkAndUpdateApp W cfg dryRun app w = (r, w')"
    and l: "check_loop W cfg dryRun (app # rest) w = check_loop W cfg dryRun rest w''"
    and f: "appStatuses w'' = appStatuses w'"
    by (rule check_loop_Cons)
  have "appStatuses w' u = appStatuses w u"
  proof (cases "u = app_UUID app")
    case True
    with assms have "isl (GetApplication W (history w) (app_UUID app))" by simp
    from checkAndUpdateApp_missing[OF c this] show ?thesis by simp
  next
    case False
    with checkAndUpdateApp_other[OF c] show ?thesis by simp
  qed
  with f Cons.IH[of w''] l show ?case by simp
qed


lemma checkApplications_resolved:
  assumes "getApplicationsToCheck W cfg (w\<lparr>lastCheck := now w\<rparr>) = (Inr apps, w1)"
  shows "checkApplications W cfg dryRun w = (None, check_loop W cfg dryRun apps w1)"
  using assms by (simp add: checkApplications_def)

lemma getApplicationsToCheck_frame:
  assumes "getApplicationsToCheck W cfg w = (r, w1)"
  shows "appStatuses w1 = appStatuses w \<and> lastUpdates w1 = lastUpdates w
         \<and> lastCheck w1 = lastCheck w \<and> now w1 = now w"
  using assms by (auto simp: getApplicationsToCheck_def Let_def split: if_splits sum.splits)


lemma checkApplications_missing:
  assumes "\<forall>h. isl (GetApplication W h u)"
  shows "appStatuses (snd (checkApplications W cfg dryRun w)) u = appStatuses w u"
proof (cases "getApplicationsToCheck W cfg (w\<lparr>lastCheck := now w\<rparr>)")
  case (Pair r w1)
  from getApplicationsToCheck_frame[OF Pair] have "appStatuses w1 = appStatuses w" by simp
  with Pair show ?thesis
    by (cases r) (simp_all add: checkApplications_def check_loop_missing[OF assms])
qed

lemma not_newer_1_0_0: "fst (IsUpdateAllowed ''1.0.0'' ''1.0.0'' AutoPatch []) = False"
  by (simp add: IsUpdateAllowed_def parse_defs Compare_def)

lemma steady_cycle:
  "history (snd (checkApplications steady_world two_apps False (NewWatcher 0)))
     = [CallGetApplication ''u1'', CallGetLatestTag ''nginx'', Sleep 30,
        CallGetApplication ''u2'', CallGetLatestTag ''redis'']"
  by (simp add: world_defs watcher_defs not_newer_1_0_0 Let_def)

text \<open>
  Claim C2 fails on the code. In a cycle over two applications that are both up to
  date, no update or restart is called, and the loop still pauses for 30 seconds
  after the first application: the pause follows every check that returned no error
  and is not the last, whether or not it updated anything.
\<close>

theorem check_cycle_sleeps_without_update:
  "updates (history (snd (checkApplications steady_world two_apps False (NewWatcher 0)))) = []
   \<and> sleeps (history (snd (checkApplications steady_world two_apps False (NewWatcher 0)))) = [30]
   \<and> history (snd (checkApplications steady_world two_apps False (NewWatcher 0)))
        = [CallGetApplication ''u1'', CallGetLatestTag ''nginx'', Sleep 30,
           CallGetApplication ''u2'', CallGetLatestTag ''redis'']
   \<and> now (snd (checkApplications steady_world two_apps False (NewWatcher 0))) = 30"
proof -
  have "now (snd (checkApplications steady_world two_apps False (NewWatcher 0))) = 30"
    by (simp add: world_defs watcher_defs not_newer_1_0_0 Let_def)
  then show ?thesis by (simp add: steady_cycle updates_def sleeps_def)
qed

lemma missing_cycle:
  "history (snd (checkApplications missing_world two_apps False (NewWatcher 0)))
     = [CallGetApplication ''u1'', CallGetLatestTag ''nginx'', Sleep 30, CallGetApplication ''u2'',
        LogCheckFailed ''u2'' ''getting current application state: application not found: u2'']
   \<and> appStatuses (snd (checkApplications missing_world two_apps False (NewWatcher 0))) ''u2'' = None
   \<and> lastCheck (snd (checkApplications missing_world two_apps False (NewWatcher 0))) = 0
   \<and> now (snd (checkApplications missing_world two_apps False (NewWatcher 0))) = 30
   \<and> fst (checkApplications missing_world two_apps False (NewWatcher 0)) = None"
  by (simp add: world_defs watcher_defs not_newer_1_0_0 Let_def)

text \<open>
  Claim C10. A check that returns an error leaves the status map and the update times
  untouched; the loop goes on to fetch every application of the list, in order,
  whatever the earlier checks returned; the cycle returns no error once the
  application list is resolved; and an application the deployment controller does not
  know has, after the cycle, the entry it had before.
\<close>

theorem check_cycle_isolates_failures:
  "(\<forall>e w'. checkAndUpdateApp W cfg dryRun app w = (Some e, w') \<longrightarrow>
       appStatuses w' = appStatuses w \<and> lastUpdates w' = lastUpdates w)
   \<and> fetched (history (check_loop W cfg dryRun apps w)) = fetched (history w) @ map app_UUID apps
   \<and> (\<forall>apps' w1. getApplicationsToCheck W cfg (w\<lparr>lastCheck := now w\<rparr>) = (Inr apps', w1) \<longrightarrow>
         checkApplications W cfg dryRun w = (None, check_loop W cfg dryRun apps' w1))
   \<and> ((\<forall>h. isl (GetApplication W h u)) \<longrightarrow>
         appStatuses (check_loop W cfg dryRun apps w) u = appStatuses w u
         \<and> appStatuses (snd (checkApplications W cfg dryRun w)) u = appStatuses w u)"
proof (intro conjI allI impI)
  fix e w' assume "checkAndUpdateApp W cfg dryRun app w = (Some e, w')"
  from checkAndUpdateApp_cases[OF this]
  show "appStatuses w' = appStatuses w" "lastUpdates w' = lastUpdates w" by simp_all
next
  show "fetched (history (check_loop W cfg dryRun apps w)) = fetched (history w) @ map app_UUID apps"
    by (rule check_loop_fetched)
next
  fix apps' w1 assume "getApplicationsToCheck W cfg (w\<lparr>lastCheck := now w\<rparr>) = (Inr apps', w1)"
  then show "checkApplications W cfg dryRun w = (None, check_loop W cfg dryRun apps' w1)"
    by (rule checkApplications_resolved)
next
  assume m: "\<forall>h. isl (GetApplication W h u)"
  show "appStatuses (check_loop W cfg dryRun apps w) u = appStatuses w u"
    by (rule check_loop_missing[OF m])
  show "appStatuses (snd (checkApplications W cfg dryRun w)) u = appStatuses w u"
    by (rule checkApplications_missing[OF m])
qed

theorem check_cycle_isolates_failures_witness:
  "getApplicationsToCheck missing_world two_apps ((NewWatcher 0)\<lparr>lastCheck := now (NewWatcher 0)\<rparr>)
     = (Inr (Apps two_apps), NewWatcher 0)
   \<and> (\<forall>h. isl (GetApplication missing_world h ''u2''))
   \<and> checkAndUpdateApp missing_world two_apps False (Apps two_apps ! 1) (NewWatcher 0)
       = (Some ''getting current application state: application not found: u2'',
          emit (CallGetApplication ''u2'') (NewWatcher 0))
   \<and> fst (checkApplications missing_world two_apps False (NewWatcher 0)) = None
   \<and> fetched (history (snd (checkApplications missing_world two_apps False (NewWatcher 0))))
       = [''u1'', ''u2'']
   \<and> appStatuses (snd (checkApplications missing_world two_apps False (NewWatcher 0))) ''u2''
       = appStatuses (NewWatcher 0) ''u2''"
proof -
  have g: "getApplicationsToCheck missing_world two_apps ((NewWatcher 0)\<lparr>lastCheck := now (NewWatcher 0)\<rparr>)
     = (Inr (Apps two_apps), NewWatcher 0)"
    by (simp add: getApplicationsToCheck_def two_apps_def NewWatcher_def)
  have m: "\<forall>h. isl (GetApplication missing_world h ''u2'')"
    by (simp add: missing_world_def)
  have c: "checkAndUpdateApp missing_world two_apps False (Apps two_apps ! 1) (NewWatcher 0)
       = (Some ''getting current application state: application not found: u2'',
          emit (CallGetApplication ''u2'') (NewWatcher 0))"
    by (simp add: checkAndUpdateApp_def Let_def missing_world_def two_apps_def)
  note t = check_cycle_isolates_failures[of missing_world two_apps False "Apps two_apps ! 1"
      "NewWatcher 0" "Apps two_apps" "''u2''"]
  from t g have r: "fst (checkApplications missing_world two_apps False (NewWatcher 0)) = None"
    by simp
  from t m have s: "appStatuses (snd (checkApplications missing_world two_apps False (NewWatcher 0))) ''u2''
       = appStatuses (NewWatcher 0) ''u2''"
    by blast
  have f: "fetched (history (snd (checkApplications missing_world two_apps False (NewWatcher 0))))
       = [''u1'', ''u2'']"
    using missing_cycle by simp
  from g m c r s f show ?thesis by simp
qed




section \<open>Properties of the configuration loader\<close>

lemmas compact_defs =
  parseCompactApps_def parseCompactApp_def Split_def TrimSpace_def is_space_def
  Atoi_def is_digit_def max_int_def min_int_def

text \<open>
  The compact application format refuses a policy outside the enumeration: every
  application it returns has no policy or one of the four.
\<close>

lemma parseCompactApp_policy:
  assumes "parseCompactApp spec = Inr (Some app)"
  shows "app_Policy app = [] \<or> valid_policy (app_Policy app)"
  using assms
  by (auto simp: parseCompactApp_def Let_def valid_policy_def AutoPatch_def AutoMinor_def
      AutoAll_def NotifyOnly_def split: if_splits)

lemma parseCompactSpecs_policy:
  assumes "parseCompactSpecs specs acc = Inr apps"
    and "\<forall>app \<in> set acc. app_Policy app = [] \<or> valid_policy (app_Policy app)"
  shows "\<forall>app \<in> set apps. app_Policy app = [] \<or> valid_policy (app_Policy app)"
  using assms
proof (induction specs arbitrary: acc)
  case Nil
  then show ?case by simp
next
  case (Cons spec specs)
  show ?case
  proof (cases "parseCompactApp spec")
    case (Inl e)
    with Cons.prems(1) show ?thesis by simp
  next
    case (Inr o1)
    show ?thesis
    proof (cases o1)
      case None
      with Inr Cons.prems Cons.IH[of acc] show ?thesis by simp
    next
      case (Some app)
      with Inr parseCompactApp_policy[of spec app]
      have "app_Policy app = [] \<or> valid_policy (app_Policy app)" by simp
      with Cons.prems(2) have "\<forall>a \<in> set (acc @ [app]). app_Policy a = [] \<or> valid_policy (app_Policy a)"
        by auto
      with Some Inr Cons.prems(1) Cons.IH[of "acc @ [app]"] show ?thesis by simp
    qed
  qed
qed

lemma parseCompactApps_policy:
  "parseCompactApps appsStr = Inr apps \<Longrightarrow>
     \<forall>app \<in> set apps. app_Policy app = [] \<or> valid_policy (app_Policy app)"
  unfolding parseCompactApps_def using parseCompactSpecs_policy[of _ "[]" apps] by simp

lemma if_set_Defaults_Policy:
  "defaults_Policy (Defaults (if_set v (\<lambda>x c. c\<lparr>Coolify := g x c\<rparr>) c)) = defaults_Policy (Defaults c)"
  "defaults_Policy (Defaults (if_set v (\<lambda>x c. c\<lparr>Defaults := (Defaults c)\<lparr>defaults_Schedule := f1 x\<rparr>\<rparr>) c))
     = defaults_Policy (Defaults c)"
  "defaults_Policy (Defaults (if_set v (\<lambda>x c. c\<lparr>Defaults := (Defaults c)\<lparr>defaults_Interval := f2 x\<rparr>\<rparr>) c))
     = defaults_Policy (Defaults c)"
  "defaults_Policy (Defaults (if_set v (\<lambda>x c. c\<lparr>Defaults := (Defaults c)\<lparr>defaults_Cooldown := f3 x\<rparr>\<rparr>) c))
     = defaults_Policy (Defaults c)"
  "defaults_Policy (Defaults (if_set v (\<lambda>x c. c\<lparr>Defaults := (Defaults c)\<lparr>defaults_ExcludePatterns := f4 x\<rparr>\<rparr>) c))
     = defaults_Policy (Defaults c)"
  "defaults_Policy (Defaults (if_set v (\<lambda>x c. c\<lparr>Defaults := (Defaults c)\<lparr>defaults_Policy := x\<rparr>\<rparr>) c))
     = (if v \<noteq> [] then v else defaults_Policy (Defaults c))"
  by (simp_all add: if_set_def)

text \<open>
  The default policy of a loaded configuration is the value of \<^verbatim>\<open>PATROL_POLICY\<close>
  when that is set, else the one of the YAML file, and \<open>auto-patch\<close> when both are
  empty: no value is refused.
\<close>

lemma loadFromEnv_policy:
  assumes "loadFromEnv getenv config = Inr c"
  shows "defaults_Policy (Defaults c) =
           (if getenv ''PATROL_POLICY'' \<noteq> [] then getenv ''PATROL_POLICY''
            else defaults_Policy (Defaults config))"
proof -
  define c7 where "c7 =
     if_set (getenv ''PATROL_EXCLUDE_PATTERNS'')
       (\<lambda>patterns c. c\<lparr>Defaults := (Defaults c)\<lparr>defaults_ExcludePatterns :=
                         map TrimSpace (Split patterns (CHR '',''))\<rparr>\<rparr>)
    (if_set (getenv ''PATROL_COOLDOWN'')
       (\<lambda>cooldown c. c\<lparr>Defaults := (Defaults c)\<lparr>defaults_Cooldown := cooldown\<rparr>\<rparr>)
    (if_set (getenv ''PATROL_POLICY'')
       (\<lambda>policy c. c\<lparr>Defaults := (Defaults c)\<lparr>defaults_Policy := policy\<rparr>\<rparr>)
    (if_set (getenv ''PATROL_INTERVAL'')
       (\<lambda>interval c. c\<lparr>Defaults := (Defaults c)\<lparr>defaults_Interval := interval\<rparr>\<rparr>)
    (if_set (getenv ''PATROL_SCHEDULE'')
       (\<lambda>schedule c. c\<lparr>Defaults := (Defaults c)\<lparr>defaults_Schedule := schedule\<rparr>\<rparr>)
    (if_set (getenv ''COOLIFY_TOKEN'')
       (\<lambda>token c. c\<lparr>Coolify := (Coolify c)\<lparr>coolify_Token := token\<rparr>\<rparr>)
    (if_set (getenv ''COOLIFY_URL'')
       (\<lambda>url c. c\<lparr>Coolify := (Coolify c)\<lparr>coolify_URL := url\<rparr>\<rparr>) config))))))"
  have c7: "defaults_Policy (Defaults c7) =
           (if getenv ''PATROL_POLICY'' \<noteq> [] then getenv ''PATROL_POLICY''
            else defaults_Policy (Defaults config))"
    unfolding c7_def by (simp only: if_set_Defaults_Policy)
  have eq: "loadFromEnv getenv config =
      (if getenv ''PATROL_APPS'' \<noteq> []
         then (case parseCompactApps (getenv ''PATROL_APPS'') of
                 Inl e \<Rightarrow> Inl (''invalid PATROL_APPS format: '' @ e)
               | Inr apps \<Rightarrow> Inr (c7\<lparr>Apps := apps\<rparr>))
         else if getenv ''PATROL_AUTO_DISCOVER'' = ''true''
         then Inr (c7\<lparr>Apps := []\<rparr>)
         else Inr c7)"
    unfolding loadFromEnv_def Let_def c7_def by (rule refl)
  from assms eq have "c = c7 \<or> (\<exists>apps. c = c7\<lparr>Apps := apps\<rparr>)"
    by (auto split: if_splits sum.splits)
  with c7 show ?thesis by auto
qed

lemma set_defaults_Policy:
  "defaults_Policy (set_defaults d) = (if defaults_Policy d = [] then AutoPatch else defaults_Policy d)"
  by (simp add: set_defaults_def Let_def)

lemma Load_policy:
  assumes "Load cronParse durationOk file getenv = Inr c"
  shows "\<exists>config0. (case file of None \<Rightarrow> Inr zero_Config | Some r \<Rightarrow> r) = Inr config0
         \<and> defaults_Policy (Defaults c) =
             (if getenv ''PATROL_POLICY'' \<noteq> [] then getenv ''PATROL_POLICY''
              else if defaults_Policy (Defaults config0) \<noteq> [] then defaults_Policy (Defaults config0)
              else AutoPatch)"
proof -
  from assms obtain config0 config1 where
    f: "(case file of None \<Rightarrow> Inr zero_Config | Some r \<Rightarrow> r) = Inr config0"
    and l: "loadFromEnv getenv config0 = Inr config1"
    and c: "c = config1\<lparr>Defaults := set_defaults (Defaults config1)\<rparr>"
    by (auto simp: Load_def Let_def split: sum.splits if_splits)
  from loadFromEnv_policy[OF l] c f show ?thesis
    by (auto simp: set_defaults_Policy)
qed

text \<open>
  Claim C4 fails on the code. With the two required variables set and
  \<^verbatim>\<open>PATROL_POLICY=yolo\<close>, \<^verbatim>\<open>Load\<close> returns a configuration whose default policy is
  \<open>yolo\<close>, and so it does for a YAML file whose default policy or whose application
  policy is \<open>yolo\<close>; only the compact \<^verbatim>\<open>PATROL_APPS\<close> format refuses the value.
\<close>

theorem Load_accepts_unknown_policy:
  "\<not> valid_policy ''yolo''
   \<and> Load (\<lambda>s. False) (\<lambda>s. s = ''15m'' \<or> s = ''1h'') None
        ((\<lambda>k. [])(''COOLIFY_URL'' := ''http://localhost:8000'', ''COOLIFY_TOKEN'' := ''t'',
                  ''PATROL_POLICY'' := ''yolo''))
      = Inr \<lparr>Coolify = \<lparr>coolify_URL = ''http://localhost:8000'', coolify_Token = ''t''\<rparr>,
              Defaults = \<lparr>defaults_Policy = ''yolo'', defaults_Interval = ''15m'',
                          defaults_Schedule = [], defaults_Cooldown = ''1h'',
                          defaults_ExcludePatterns =
                            [''-alpha'', ''-beta'', ''-rc'', ''-dev'', ''-nightly'']\<rparr>,
              Apps = []\<rparr>
   \<and> Load (\<lambda>s. False) (\<lambda>s. s = ''15m'' \<or> s = ''1h'')
        (Some (Inr (zero_Config
           \<lparr>Coolify := \<lparr>coolify_URL = ''http://localhost:8000'', coolify_Token = ''t''\<rparr>,
            Defaults := (Defaults zero_Config)\<lparr>defaults_Policy := ''yolo''\<rparr>,
            Apps := [\<lparr>app_Name = ''web'', app_UUID = ''u1'', app_Image = ''nginx'',
                      app_Policy = ''yolo'', app_Pin = []\<rparr>]\<rparr>)))
        (\<lambda>k. [])
      = Inr \<lparr>Coolify = \<lparr>coolify_URL = ''http://localhost:8000'', coolify_Token = ''t''\<rparr>,
              Defaults = \<lparr>defaults_Policy = ''yolo'', defaults_Interval = ''15m'',
                          defaults_Schedule = [], defaults_Cooldown = ''1h'',
                          defaults_ExcludePatterns =
                            [''-alpha'', ''-beta'', ''-rc'', ''-dev'', ''-nightly'']\<rparr>,
              Apps = [\<lparr>app_Name = ''web'', app_UUID = ''u1'', app_Image = ''nginx'',
                       app_Policy = ''yolo'', app_Pin = []\<rparr>]\<rparr>
   \<and> parseCompactApps ''web:u1:nginx:yolo''
      = Inl (''invalid policy '' @ [CHR 0x27] @ ''yolo'' @ [CHR 0x27] @ '' in spec '' @ [CHR 0x27]
             @ ''web:u1:nginx:yolo'' @ [CHR 0x27]
             @ ''. Must be: auto-patch, auto-minor, auto-all, or notify-only'')"
proof (intro conjI)
  show "\<not> valid_policy ''yolo''"
    by (simp add: valid_policy_def AutoPatch_def AutoMinor_def AutoAll_def NotifyOnly_def)
  show "Load (\<lambda>s. False) (\<lambda>s. s = ''15m'' \<or> s = ''1h'') None
        ((\<lambda>k. [])(''COOLIFY_URL'' := ''http://localhost:8000'', ''COOLIFY_TOKEN'' := ''t'',
                  ''PATROL_POLICY'' := ''yolo''))
      = Inr \<lparr>Coolify = \<lparr>coolify_URL = ''http://localhost:8000'', coolify_Token = ''t''\<rparr>,
              Defaults = \<lparr>defaults_Policy = ''yolo'', defaults_Interval = ''15m'',
                          defaults_Schedule = [], defaults_Cooldown = ''1h'',
                          defaults_ExcludePatterns =
                            [''-alpha'', ''-beta'', ''-rc'', ''-dev'', ''-nightly'']\<rparr>,
              Apps = []\<rparr>"
    by (simp add: Load_def loadFromEnv_def if_set_def set_defaults_def zero_Config_def Let_def AutoPatch_def)
  show "Load (\<lambda>s. False) (\<lambda>s. s = ''15m'' \<or> s = ''1h'')
        (Some (Inr (zero_Config
           \<lparr>Coolify := \<lparr>coolify_URL = ''http://localhost:8000'', coolify_Token = ''t''\<rparr>,
            Defaults := (Defaults zero_Config)\<lparr>defaults_Policy := ''yolo''\<rparr>,
            Apps := [\<lparr>app_Name = ''web'', app_UUID = ''u1'', app_Image = ''nginx'',
                      app_Policy = ''yolo'', app_Pin = []\<rparr>]\<rparr>)))
        (\<lambda>k. [])
      = Inr \<lparr>Coolify = \<lparr>coolify_URL = ''http://localhost:8000'', coolify_Token = ''t''\<rparr>,
              Defaults = \<lparr>defaults_Policy = ''yolo'', defaults_Interval = ''15m'',
                          defaults_Schedule = [], defaults_Cooldown = ''1h'',
                          defaults_ExcludePatterns =
                            [''-alpha'', ''-beta'', ''-rc'', ''-dev'', ''-nightly'']\<rparr>,
              Apps = [\<lparr>app_Name = ''web'', app_UUID = ''u1'', app_Image = ''nginx'',
                       app_Policy = ''yolo'', app_Pin = []\<rparr>]\<rparr>"
    by (simp add: Load_def loadFromEnv_def if_set_def set_defaults_def zero_Config_def Let_def AutoPatch_def)
  show "parseCompactApps ''web:u1:nginx:yolo''
      = Inl (''invalid policy '' @ [CHR 0x27] @ ''yolo'' @ [CHR 0x27] @ '' in spec '' @ [CHR 0x27]
             @ ''web:u1:nginx:yolo'' @ [CHR 0x27]
             @ ''. Must be: auto-patch, auto-minor, auto-all, or notify-only'')"
    by (simp add: compact_defs Let_def)
qed

section \<open>Properties of the registry client\<close>

lemmas registry_defs =
  latest_of_tags_def filterTags_def compareVersions_def parseSimpleVersion_def numPart_def
  Split_def strip_v_def insertionSort_def Atoi_def is_digit_def max_int_def min_int_def

text \<open>
  The registry client ranks an alias against a version as raw strings, so with the
  tags \<open>1.0.0\<close> and \<open>stable\<close> its latest tag is \<open>stable\<close>, where the selection of
  the semver package gives \<open>1.0.0\<close>.
\<close>

lemma latest_of_tags_alias_first:
  "compareVersions ''stable'' ''1.0.0'' = 1
   \<and> compareVersions ''1.0.0'' ''stable'' = - 1
   \<and> latest_of_tags insertionSort ''nginx'' [''1.0.0'', ''stable''] [] = Inr ''stable''
   \<and> select_tag [''1.0.0'', ''stable''] [] = Inr ''1.0.0''"
  by (simp add: registry_defs select_defs parse_defs Compare_def Let_def)

end
